theory Spec2Isabelle
  imports Main "HOL-Library.Multiset"
begin

section \<open>The outside world: image codec and file system\<close>

text \<open>
  The repository delegates decoding, cropping, encoding and all file-system work to
  Pillow and the Python standard library. They are not part of the repository, so they
  enter the model as a record of functions, \<open>env\<close>, that every operation receives.
  An operation of the outside world that raises an exception returns the exception's
  message (\<open>Inl msg\<close> or \<open>Some msg\<close>), which is what \<^verbatim>\<open>str(e)\<close> yields in the
  \<^verbatim>\<open>except Exception as e\<close> handlers of the source.

  \<^item> \<open>img_open p\<close> is \<^verbatim>\<open>Image.open(p)\<close> followed by \<^verbatim>\<open>img.size\<close>: the pair
    (width, height), or the exception message.
  \<^item> \<open>mkdir d\<close> is \<^verbatim>\<open>Path(d).mkdir(parents=True, exist_ok=True)\<close>.
  \<^item> \<open>save rq\<close> is the chain \<^verbatim>\<open>img.crop(box)\<close>, the palette conversion, the optional
    \<^verbatim>\<open>resize\<close>, \<^verbatim>\<open>cropped.save(dest, format, quality)\<close> and
    \<^verbatim>\<open>dest.stat().st_size\<close>: the size in bytes of the written file, or the message of
    the first exception in the chain.
  \<^item> \<open>can_write p\<close> tells whether \<^verbatim>\<open>open(p, 'w')\<close> with the \<^verbatim>\<open>json.dump\<close> that
    follows it succeeds.
  \<^item> \<open>as_completed fs\<close> is the order in which the thread pool finishes the files
    \<open>fs\<close> submitted to it.
\<close>

type_synonym crop_box = "int \<times> int \<times> int \<times> int"

definition box_top :: "crop_box \<Rightarrow> int" where
  "box_top b = fst (snd b)"

definition box_bottom :: "crop_box \<Rightarrow> int" where
  "box_bottom b = snd (snd (snd b))"

record save_request =
  rq_source :: string
  rq_box :: crop_box
  rq_resize :: "(int \<times> int) option"
  rq_dest :: string
  rq_format :: string
  rq_quality :: int

record env =
  img_open :: "string \<Rightarrow> string + (int \<times> int)"
  mkdir :: "string \<Rightarrow> string option"
  save :: "save_request \<Rightarrow> string + nat"
  can_write :: "string \<Rightarrow> bool"
  as_completed :: "string list \<Rightarrow> string list"

section \<open>String formatting\<close>

text \<open>
  \<^verbatim>\<open>f"{n:03d}"\<close>: the decimal digits of \<open>n\<close>, padded with zeros on the left to three
  characters; a negative number keeps its sign in front of the padding.
\<close>

definition digit_char :: "nat \<Rightarrow> char" where
  "digit_char d = ''0123456789'' ! d"

fun str_nat :: "nat \<Rightarrow> string" where
  "str_nat n = (if n < 10 then [digit_char n] else str_nat (n div 10) @ [digit_char (n mod 10)])"

declare str_nat.simps [simp del]

definition zero_pad :: "nat \<Rightarrow> string \<Rightarrow> string" where
  "zero_pad w s = replicate (w - length s) (CHR ''0'') @ s"

definition fmt_03d :: "int \<Rightarrow> string" where
  "fmt_03d n =
     (if n < 0 then CHR ''-'' # zero_pad 2 (str_nat (nat (- n)))
      else zero_pad 3 (str_nat (nat n)))"

section \<open>Loops that an exception can leave\<close>

text \<open>
  A \<^verbatim>\<open>for\<close> loop inside a \<^verbatim>\<open>try\<close> block: the body maps the loop variable and the
  state to a new state, or raises, which ends the loop with the exception.
\<close>

fun for_each :: "('i \<Rightarrow> 's \<Rightarrow> 'e + 's) \<Rightarrow> 'i list \<Rightarrow> 's \<Rightarrow> 'e + 's" where
  "for_each body [] s = Inr s"
| "for_each body (i # is) s =
     (case body i s of Inl e \<Rightarrow> Inl e | Inr s' \<Rightarrow> for_each body is s')"

section \<open>interactive\_splitter.py: the segmentation planner\<close>

record skip_area =
  skip_start :: int
  skip_end :: int

record image_info =
  info_path :: string
  info_filename :: string
  info_url :: string
  info_size :: "int \<times> int"

text \<open>
  The fields of \<^verbatim>\<open>InteractiveSplitter\<close>. Of \<^verbatim>\<open>current_image_data\<close> only
  \<^verbatim>\<open>original_size\<close> is kept: the display size, the scale factor and the base64 preview
  are floating-point and presentation data that no operation below reads.
\<close>

record splitter =
  current_image_path :: "string option"
  current_image_data :: "(int \<times> int) option"
  current_sku :: "string option"
  uploaded_images :: "image_info list"
  current_image_index :: int

text \<open>
  One entry of \<^verbatim>\<open>split_info\<close>. The source stores \<^verbatim>\<open>size_kb\<close>, the file size divided
  by 1024 and rounded to one decimal; the model keeps the size in bytes.
\<close>

record segment_output =
  index :: int
  filename :: string
  crop_box :: crop_box
  dimensions :: "int \<times> int"
  size_bytes :: nat
  sku :: string
  has_size_suffix :: bool
  download_url :: string

record split_result =
  splits_created :: nat
  skipped_areas :: nat
  excluded_segments :: nat
  output_directory :: string
  result_sku :: string
  details :: "segment_output list"

text \<open>
  The \<^verbatim>\<open>{"error": ...}\<close> dictionaries. The two fixed messages of the source are
  Japanese sentences; they are the first two constructors. \<open>Raised msg\<close> is
  \<^verbatim>\<open>{"error": str(e)}\<close> of an exception handler.
\<close>

datatype error = NoImageOrNoCutPositions | NoSku | NoImages | Raised string

text \<open>Python's truth value of an attribute that holds \<^verbatim>\<open>None\<close> or a string.\<close>

fun truthy :: "string option \<Rightarrow> bool" where
  "truthy None = False"
| "truthy (Some s) = (s \<noteq> [])"

definition sorted_positions :: "int \<Rightarrow> int list \<Rightarrow> int list" where
  "sorted_positions img_height cut_positions = sort ([0] @ cut_positions @ [img_height])"

text \<open>
  The inner loop over the skip areas, with its \<^verbatim>\<open>break\<close> at the first overlap.
\<close>

fun is_in_skip_area :: "int \<Rightarrow> int \<Rightarrow> skip_area list \<Rightarrow> bool" where
  "is_in_skip_area top_px bottom_px [] = False"
| "is_in_skip_area top_px bottom_px (a # as) =
     (if \<not> (bottom_px \<le> skip_start a \<or> top_px \<ge> skip_end a) then True
      else is_in_skip_area top_px bottom_px as)"

definition jpeg_request :: "string \<Rightarrow> crop_box \<Rightarrow> string \<Rightarrow> save_request" where
  "jpeg_request src box dest =
     \<lparr>rq_source = src, rq_box = box, rq_resize = None, rq_dest = dest,
      rq_format = ''JPEG'', rq_quality = 95\<rparr>"

definition output_entry ::
  "int \<Rightarrow> string \<Rightarrow> crop_box \<Rightarrow> int \<times> int \<Rightarrow> nat \<Rightarrow> string \<Rightarrow> bool \<Rightarrow> segment_output" where
  "output_entry idx name box dims sz the_sku suffix =
     \<lparr>index = idx, filename = name, crop_box = box, dimensions = dims, size_bytes = sz,
      sku = the_sku, has_size_suffix = suffix,
      download_url = ''/download/'' @ the_sku @ ''/'' @ name\<rparr>"

text \<open>
  The body of the loop of \<^verbatim>\<open>split_by_positions\<close> for one \<open>i\<close>. The loop state is
  \<open>(segment_index, excluded_by_segment_count, split_info)\<close>; both \<^verbatim>\<open>continue\<close>
  branches return the state with the index advanced.
\<close>

definition split_segment ::
  "env \<Rightarrow> string \<Rightarrow> string \<Rightarrow> string \<Rightarrow> int \<Rightarrow> int list \<Rightarrow> skip_area list \<Rightarrow> int list \<Rightarrow> int list
   \<Rightarrow> nat \<Rightarrow> int \<times> nat \<times> segment_output list \<Rightarrow> string + (int \<times> nat \<times> segment_output list)" where
  "split_segment e src the_sku sku_output_path img_width positions skip_areas excluded size_segments i st =
     (case st of (segment_index, excluded_by_segment_count, split_info) \<Rightarrow>
        let top_px = positions ! i;
            bottom_px = positions ! (i + 1)
        in if segment_index \<in> set excluded
             then Inr (segment_index + 1, excluded_by_segment_count + 1, split_info)
           else if is_in_skip_area top_px bottom_px skip_areas
             then Inr (segment_index + 1, excluded_by_segment_count, split_info)
           else
             let box = (0, top_px, img_width, bottom_px);
                 suffix = (segment_index \<in> set size_segments);
                 output_filename = the_sku @ ''_'' @ fmt_03d segment_index @ ''.jpg'';
                 size_filename = the_sku @ ''_'' @ fmt_03d segment_index @ ''-size.jpg''
             in case save e (jpeg_request src box (sku_output_path @ ''/'' @ output_filename)) of
                  Inl msg \<Rightarrow> Inl msg
                | Inr sz \<Rightarrow>
                    let info1 = split_info @
                          [output_entry segment_index output_filename box
                             (img_width, bottom_px - top_px) sz the_sku False]
                    in if suffix
                         then (case save e (jpeg_request src box (sku_output_path @ ''/'' @ size_filename)) of
                                 Inl msg \<Rightarrow> Inl msg
                               | Inr sz2 \<Rightarrow>
                                   Inr (segment_index + 1, excluded_by_segment_count,
                                        info1 @ [output_entry segment_index size_filename box
                                                   (img_width, bottom_px - top_px) sz2 the_sku True]))
                       else Inr (segment_index + 1, excluded_by_segment_count, info1))"

definition split_by_positions ::
  "env \<Rightarrow> splitter \<Rightarrow> int list \<Rightarrow> skip_area list \<Rightarrow> int list \<Rightarrow> int list \<Rightarrow> string
   \<Rightarrow> error + split_result" where
  "split_by_positions e self cut_positions skip_areas excluded size_segments output_dir =
     (if \<not> truthy (current_image_path self) \<or> cut_positions = [] then Inl NoImageOrNoCutPositions
      else if \<not> truthy (current_sku self) then Inl NoSku
      else
        let src = the (current_image_path self);
            the_sku = the (current_sku self)
        in case img_open e src of
             Inl msg \<Rightarrow> Inl (Raised msg)
           | Inr (img_width, img_height) \<Rightarrow>
               let sku_output_path = output_dir @ ''/manual_split/'' @ the_sku
               in case mkdir e sku_output_path of
                    Some msg \<Rightarrow> Inl (Raised msg)
                  | None \<Rightarrow>
                      let positions = sorted_positions img_height cut_positions
                      in case for_each
                                (split_segment e src the_sku sku_output_path img_width positions
                                   skip_areas excluded size_segments)
                                [0 ..< length positions - 1] (1, 0, []) of
                           Inl msg \<Rightarrow> Inl (Raised msg)
                         | Inr (segment_index, excluded_by_segment_count, split_info) \<Rightarrow>
                             Inr \<lparr>splits_created = length split_info,
                                  skipped_areas = length skip_areas,
                                  excluded_segments = excluded_by_segment_count,
                                  output_directory = sku_output_path,
                                  result_sku = the_sku,
                                  details = split_info\<rparr>)"

text \<open>
  \<^verbatim>\<open>load_image\<close> sets the current image when the file opens and leaves the object as
  it is when it does not (it then returns an error dictionary, which \<^verbatim>\<open>batch_process\<close>
  ignores). The preview it renders for the browser is not modelled.
\<close>

definition load_image :: "env \<Rightarrow> splitter \<Rightarrow> string \<Rightarrow> splitter" where
  "load_image e self image_path =
     (case img_open e image_path of
        Inl msg \<Rightarrow> self
      | Inr sz \<Rightarrow> self\<lparr>current_image_path := Some image_path, current_image_data := Some sz\<rparr>)"

text \<open>
  The body of the loop of \<^verbatim>\<open>_split_with_global_numbering\<close>. The loop state is
  \<open>(segment_index, global_segment_index, excluded_by_segment_count, split_info)\<close>.
\<close>

definition split_segment_global ::
  "env \<Rightarrow> string \<Rightarrow> string \<Rightarrow> string \<Rightarrow> int \<Rightarrow> int list \<Rightarrow> skip_area list \<Rightarrow> int list \<Rightarrow> int list
   \<Rightarrow> nat \<Rightarrow> int \<times> int \<times> nat \<times> segment_output list
   \<Rightarrow> string + (int \<times> int \<times> nat \<times> segment_output list)" where
  "split_segment_global e src the_sku sku_output_path img_width positions skip_areas excluded size_segments i st =
     (case st of (segment_index, global_segment_index, excluded_by_segment_count, split_info) \<Rightarrow>
        let top_px = positions ! i;
            bottom_px = positions ! (i + 1)
        in if segment_index \<in> set excluded
             then Inr (segment_index + 1, global_segment_index, excluded_by_segment_count + 1, split_info)
           else if is_in_skip_area top_px bottom_px skip_areas
             then Inr (segment_index + 1, global_segment_index, excluded_by_segment_count, split_info)
           else
             let box = (0, top_px, img_width, bottom_px);
                 suffix = (segment_index \<in> set size_segments);
                 output_filename = the_sku @ ''_'' @ fmt_03d global_segment_index @ ''.jpg'';
                 size_filename = the_sku @ ''_'' @ fmt_03d global_segment_index @ ''-size.jpg''
             in case save e (jpeg_request src box (sku_output_path @ ''/'' @ output_filename)) of
                  Inl msg \<Rightarrow> Inl msg
                | Inr sz \<Rightarrow>
                    let info1 = split_info @
                          [output_entry global_segment_index output_filename box
                             (img_width, bottom_px - top_px) sz the_sku False]
                    in if suffix
                         then (case save e (jpeg_request src box (sku_output_path @ ''/'' @ size_filename)) of
                                 Inl msg \<Rightarrow> Inl msg
                               | Inr sz2 \<Rightarrow>
                                   Inr (segment_index + 1, global_segment_index + 1,
                                        excluded_by_segment_count,
                                        info1 @ [output_entry global_segment_index size_filename box
                                                   (img_width, bottom_px - top_px) sz2 the_sku True]))
                       else Inr (segment_index + 1, global_segment_index + 1,
                                 excluded_by_segment_count, info1))"

text \<open>
  \<^verbatim>\<open>_split_with_global_numbering\<close> does not test the SKU itself: with
  \<^verbatim>\<open>current_sku\<close> equal to \<^verbatim>\<open>None\<close> the path expression inside the \<^verbatim>\<open>try\<close> block
  raises a \<^verbatim>\<open>TypeError\<close>, which the handler turns into an error dictionary (the
  message is written here without its quotation marks).
\<close>

definition split_with_global_numbering ::
  "env \<Rightarrow> splitter \<Rightarrow> int list \<Rightarrow> skip_area list \<Rightarrow> int list \<Rightarrow> int list \<Rightarrow> int
   \<Rightarrow> error + split_result" where
  "split_with_global_numbering e self cut_positions skip_areas excluded size_segments start_index =
     (if \<not> truthy (current_image_path self) \<or> cut_positions = [] then Inl NoImageOrNoCutPositions
      else
        let src = the (current_image_path self)
        in case img_open e src of
             Inl msg \<Rightarrow> Inl (Raised msg)
           | Inr (img_width, img_height) \<Rightarrow>
               (case current_sku self of
                  None \<Rightarrow> Inl (Raised ''unsupported operand type(s) for /: PosixPath and NoneType'')
                | Some the_sku \<Rightarrow>
                    let sku_output_path = ''output/manual_split/'' @ the_sku
                    in (case mkdir e sku_output_path of
                          Some msg \<Rightarrow> Inl (Raised msg)
                        | None \<Rightarrow>
                            let positions = sorted_positions img_height cut_positions
                            in (case for_each
                                       (split_segment_global e src the_sku sku_output_path img_width
                                          positions skip_areas excluded size_segments)
                                       [0 ..< length positions - 1] (1, start_index, 0, []) of
                                  Inl msg \<Rightarrow> Inl (Raised msg)
                                | Inr (segment_index, global_segment_index,
                                       excluded_by_segment_count, split_info) \<Rightarrow>
                                    Inr \<lparr>splits_created = length split_info,
                                         skipped_areas = length skip_areas,
                                         excluded_segments = excluded_by_segment_count,
                                         output_directory = sku_output_path,
                                         result_sku = the_sku,
                                         details = split_info\<rparr>))))"

record batch_entry =
  image_filename :: string
  image_index :: nat
  entry_result :: "error + split_result"

record batch_result =
  total_images :: nat
  success_count :: nat
  error_count :: nat
  total_splits_created :: nat
  batch_sku :: string
  results :: "batch_entry list"

text \<open>
  The body of the loop of \<^verbatim>\<open>batch_process\<close> over \<^verbatim>\<open>enumerate(self.uploaded_images)\<close>.
  The loop state is \<open>(all_results, total_splits, global_index)\<close>. The source saves the
  current image before each file and restores it afterwards, so every iteration starts
  from the same object \<open>self\<close>.
\<close>

definition batch_image ::
  "env \<Rightarrow> splitter \<Rightarrow> int list \<Rightarrow> skip_area list \<Rightarrow> int list \<Rightarrow> int list \<Rightarrow> bool
   \<Rightarrow> nat \<times> image_info \<Rightarrow> batch_entry list \<times> nat \<times> int \<Rightarrow> batch_entry list \<times> nat \<times> int" where
  "batch_image e self cut_positions skip_areas excluded size_segments global_numbering item st =
     (case (item, st) of ((i, info), (all_results, total_splits, global_index)) \<Rightarrow>
        let loaded = load_image e self (info_path info)
        in if global_numbering
             then (let r = split_with_global_numbering e loaded cut_positions skip_areas
                             excluded size_segments global_index;
                       entry = \<lparr>image_filename = info_filename info, image_index = i, entry_result = r\<rparr>
                   in case r of
                        Inl err \<Rightarrow> (all_results @ [entry], total_splits, global_index)
                      | Inr res \<Rightarrow> (all_results @ [entry], total_splits + splits_created res,
                                     global_index + int (splits_created res)))
           else (let r = split_by_positions e loaded cut_positions skip_areas
                           excluded size_segments ''output'';
                     entry = \<lparr>image_filename = info_filename info, image_index = i, entry_result = r\<rparr>
                 in case r of
                      Inl err \<Rightarrow> (all_results @ [entry], total_splits, global_index)
                    | Inr res \<Rightarrow> (all_results @ [entry], total_splits + splits_created res,
                                   global_index)))"

definition batch_process ::
  "env \<Rightarrow> splitter \<Rightarrow> int list \<Rightarrow> skip_area list \<Rightarrow> int list \<Rightarrow> int list \<Rightarrow> bool
   \<Rightarrow> error + batch_result" where
  "batch_process e self cut_positions skip_areas excluded size_segments global_numbering =
     (if uploaded_images self = [] then Inl NoImages
      else if \<not> truthy (current_sku self) then Inl NoSku
      else
        (case fold (batch_image e self cut_positions skip_areas excluded size_segments global_numbering)
                (enumerate 0 (uploaded_images self)) ([], 0, 1) of
           (all_results, total_splits, global_index) \<Rightarrow>
             let ok = length (filter (\<lambda>r. \<not> isl (entry_result r)) all_results)
             in Inr \<lparr>total_images = length (uploaded_images self),
                     success_count = ok,
                     error_count = length all_results - ok,
                     total_splits_created = total_splits,
                     batch_sku = the (current_sku self),
                     results = all_results\<rparr>))"

section \<open>image\_splitter.py: the grid planner and the per-file transform\<close>

text \<open>
  The configuration dictionary, read from a JSON file. \<open>output_formats\<close> maps a format
  name to its (width, height); \<^verbatim>\<open>overlap_pixels\<close> is read with
  \<^verbatim>\<open>config.get("overlap_pixels", 0)\<close> and may be absent. The record is a
  configuration of the shape that \<^verbatim>\<open>load_config\<close> writes: it has the keys
  \<^verbatim>\<open>output_formats\<close>, \<^verbatim>\<open>quality\<close> and \<^verbatim>\<open>output_format\<close>, and every format
  has a width and a height. A hand-edited file that lacks one of them makes the code
  raise a \<^verbatim>\<open>KeyError\<close>; such files are outside the model.
\<close>

record config =
  output_formats :: "string \<rightharpoonup> (int \<times> int)"
  overlap_pixels :: "int option"
  quality :: int
  output_format :: string

text \<open>
  Exceptions that leave a function. The message of \<open>UnsupportedFormat\<close>, a
  \<^verbatim>\<open>ValueError\<close>, is a Japanese phrase followed by the format name; \<open>str_exn\<close>
  gives it in English.
\<close>

datatype py_exn = UnsupportedFormat string | OSError string

fun str_exn :: "py_exn \<Rightarrow> string" where
  "str_exn (UnsupportedFormat f) = ''unsupported format: '' @ f"
| "str_exn (OSError msg) = msg"

record grid_split =
  split_index :: int
  split_filename :: string
  split_crop_box :: crop_box
  output_size :: "int \<times> int"

text \<open>
  The dictionary \<^verbatim>\<open>split_image\<close> returns: \<^verbatim>\<open>{"success": False, "error": msg}\<close> or
  \<^verbatim>\<open>{"success": True, "splits_created", "output_directory", "details"}\<close>.
\<close>

datatype transform_result =
    Failure string
  | Success nat string "grid_split list"

text \<open>\<^verbatim>\<open>Path(p).stem\<close>: the last component of the path without its last suffix.\<close>

definition path_name :: "string \<Rightarrow> string" where
  "path_name p = rev (takeWhile (\<lambda>c. c \<noteq> CHR ''/'') (rev p))"

definition path_stem :: "string \<Rightarrow> string" where
  "path_stem p =
     (let n = path_name p;
          ext = takeWhile (\<lambda>c. c \<noteq> CHR ''.'') (rev n);
          rest = dropWhile (\<lambda>c. c \<noteq> CHR ''.'') (rev n)
      in if ext = [] \<or> rest = [] \<or> tl rest = [] then n else rev (tl rest))"

text \<open>
  The body of the loop of \<^verbatim>\<open>split_image\<close> for one \<open>i\<close> of
  \<^verbatim>\<open>range(splits)\<close>; the loop state is \<^verbatim>\<open>split_info\<close>. The crop has the size
  \<open>(img_width, bottom - top)\<close>, and it is resized when that differs from the target.
\<close>

definition grid_segment ::
  "env \<Rightarrow> config \<Rightarrow> string \<Rightarrow> string \<Rightarrow> string \<Rightarrow> int \<Rightarrow> int \<Rightarrow> int \<Rightarrow> int \<Rightarrow> int
   \<Rightarrow> nat \<Rightarrow> grid_split list \<Rightarrow> string + grid_split list" where
  "grid_segment e cfg image_path fmt output_path img_width img_height target_width target_height overlap
     i split_info =
     (let top0 = int i * target_height - (int i * overlap);
          bottom0 = top0 + target_height;
          bottom_px = (if bottom0 > img_height then img_height else bottom0);
          top_px = (if bottom0 > img_height then img_height - target_height else top0);
          box = (0, top_px, img_width, bottom_px);
          output_filename = path_stem image_path @ ''_'' @ fmt @ ''_'' @ fmt_03d (int i + 1) @ ''.jpg''
      in case save e \<lparr>rq_source = image_path, rq_box = box,
                      rq_resize = (if (img_width, bottom_px - top_px) \<noteq> (target_width, target_height)
                                   then Some (target_width, target_height) else None),
                      rq_dest = output_path @ ''/'' @ output_filename,
                      rq_format = output_format cfg, rq_quality = quality cfg\<rparr> of
           Inl msg \<Rightarrow> Inl msg
         | Inr sz \<Rightarrow>
             Inr (split_info @
                  [\<lparr>split_index = int i + 1, split_filename = output_filename,
                    split_crop_box = box, output_size = (target_width, target_height)\<rparr>]))"

text \<open>
  \<^verbatim>\<open>split_image\<close>. The check of the format and the creation of the output directory
  stand before the \<^verbatim>\<open>try\<close> block: their exceptions leave the function (\<open>Inl\<close>).
  Everything after them is inside the block, and its exceptions are returned as a
  \<open>Failure\<close>; a target height of zero makes \<^verbatim>\<open>img_height // target_height\<close> raise
  there.
\<close>

definition split_image ::
  "env \<Rightarrow> config \<Rightarrow> string \<Rightarrow> string \<Rightarrow> string \<Rightarrow> py_exn + transform_result" where
  "split_image e cfg image_path fmt output_dir =
     (case output_formats cfg fmt of
        None \<Rightarrow> Inl (UnsupportedFormat fmt)
      | Some (target_width, target_height) \<Rightarrow>
          let output_path = output_dir @ ''/'' @ fmt
          in (case mkdir e output_path of
                Some msg \<Rightarrow> Inl (OSError msg)
              | None \<Rightarrow>
                  (case img_open e image_path of
                     Inl msg \<Rightarrow> Inr (Failure msg)
                   | Inr (img_width, img_height) \<Rightarrow>
                       if target_height = 0 then Inr (Failure ''integer division or modulo by zero'')
                       else
                         let splits = img_height div target_height;
                             overlap = (case overlap_pixels cfg of None \<Rightarrow> 0 | Some v \<Rightarrow> v)
                         in (case for_each
                                    (grid_segment e cfg image_path fmt output_path img_width img_height
                                       target_width target_height overlap)
                                    [0 ..< nat splits] [] of
                               Inl msg \<Rightarrow> Inr (Failure msg)
                             | Inr split_info \<Rightarrow>
                                 Inr (Success (length split_info) output_path split_info)))))"

section \<open>batch\_processor.py: the resumable batch coordinator\<close>

text \<open>
  A result as \<^verbatim>\<open>process_single_image\<close> returns it: the dictionary of
  \<^verbatim>\<open>split_image\<close> with the key \<^verbatim>\<open>source_file\<close> added. The \<^verbatim>\<open>timestamp\<close> key holds
  the wall-clock time and is left out.
\<close>

record file_result =
  source_file :: string
  outcome :: transform_result

definition process_single_image ::
  "env \<Rightarrow> config \<Rightarrow> string \<Rightarrow> string \<Rightarrow> string \<Rightarrow> py_exn + file_result" where
  "process_single_image e cfg image_path fmt output_dir =
     (case split_image e cfg image_path fmt output_dir of
        Inr r \<Rightarrow> Inr \<lparr>source_file = image_path, outcome = r\<rparr>
      | Inl ex \<Rightarrow> Inr \<lparr>source_file = image_path, outcome = Failure (str_exn ex)\<rparr>)"

text \<open>
  The resume files on disk: a map from the path of a resume file to the set stored
  under its key \<^verbatim>\<open>processed_files\<close>.
\<close>

type_synonym resume_store = "string \<rightharpoonup> string set"

definition save_resume_data :: "env \<Rightarrow> resume_store \<Rightarrow> string \<Rightarrow> string set \<Rightarrow> string + resume_store" where
  "save_resume_data e store resume_file processed_files =
     (if can_write e resume_file then Inr (store(resume_file \<mapsto> processed_files))
      else Inl ''cannot write the resume file'')"

text \<open>
  The body of the loop over \<^verbatim>\<open>concurrent.futures.as_completed\<close>. The loop state is
  \<open>(results, completed, processed_files, store)\<close>. An exception inside the
  \<^verbatim>\<open>try\<close> block, from \<^verbatim>\<open>future.result()\<close> or from the periodic save, appends a
  failed result.
\<close>

definition complete_file ::
  "env \<Rightarrow> config \<Rightarrow> string \<Rightarrow> string \<Rightarrow> string option
   \<Rightarrow> string \<Rightarrow> file_result list \<times> nat \<times> string set \<times> resume_store
   \<Rightarrow> file_result list \<times> nat \<times> string set \<times> resume_store" where
  "complete_file e cfg fmt output_dir resume_file image_file st =
     (case st of (res, completed, processed_files, store) \<Rightarrow>
        (case process_single_image e cfg image_file fmt output_dir of
           Inl ex \<Rightarrow>
             (res @ [\<lparr>source_file = image_file, outcome = Failure (str_exn ex)\<rparr>],
              completed, processed_files, store)
         | Inr r \<Rightarrow>
             let res1 = res @ [r];
                 completed1 = completed + 1
             in if truthy resume_file
                  then (let processed1 = insert image_file processed_files
                        in if completed1 mod 50 = 0
                             then (case save_resume_data e store (the resume_file) processed1 of
                                     Inl msg \<Rightarrow>
                                       (res1 @ [\<lparr>source_file = image_file, outcome = Failure msg\<rparr>],
                                        completed1, processed1, store)
                                   | Inr store1 \<Rightarrow> (res1, completed1, processed1, store1))
                           else (res1, completed1, processed1, store))
                else (res1, completed1, processed_files, store)))"

text \<open>
  \<^verbatim>\<open>process_directory_parallel\<close>. \<open>scan\<close> is the outcome of the directory walk:
  \<open>None\<close> when the input directory does not exist, otherwise the paths with an image
  extension that \<^verbatim>\<open>rglob\<close> finds. \<open>res\<close> is \<^verbatim>\<open>self.results\<close> at the call. The
  function returns the results and the resume files as it leaves them.
\<close>

definition process_directory_parallel ::
  "env \<Rightarrow> config \<Rightarrow> file_result list \<Rightarrow> string list option \<Rightarrow> string \<Rightarrow> string \<Rightarrow> string option
   \<Rightarrow> resume_store \<Rightarrow> py_exn + (file_result list \<times> resume_store)" where
  "process_directory_parallel e cfg res scan fmt output_dir resume_file store =
     (case scan of
        None \<Rightarrow> Inl (OSError ''input directory not found'')
      | Some image_files \<Rightarrow>
          let processed_files =
                (if truthy resume_file
                   then (case store (the resume_file) of None \<Rightarrow> {} | Some fs \<Rightarrow> fs)
                 else {});
              remaining_files = filter (\<lambda>f. f \<notin> processed_files) image_files
          in if remaining_files = [] then Inr (res, store)
             else
               (case fold (complete_file e cfg fmt output_dir resume_file)
                       (as_completed e remaining_files) (res, 0, processed_files, store) of
                  (res1, completed, processed1, store1) \<Rightarrow>
                    if truthy resume_file
                      then (case save_resume_data e store1 (the resume_file) processed1 of
                              Inl msg \<Rightarrow> Inl (OSError msg)
                            | Inr store2 \<Rightarrow> Inr (res1, store2))
                    else Inr (res1, store1)))"

section \<open>What the planner is expected to produce\<close>

text \<open>
  The definitions of this section are not translations of code. They describe, for the
  boundary pair at position \<open>i\<close> of the sorted boundaries, the artifacts that the
  theorems below show \<^verbatim>\<open>split_by_positions\<close> to produce: the pair at position \<open>i\<close>
  (counted from 0) always carries the segment index \<open>i + 1\<close>.
\<close>

definition saved_size :: "env \<Rightarrow> save_request \<Rightarrow> nat" where
  "saved_size e rq = (case save e rq of Inl msg \<Rightarrow> 0 | Inr sz \<Rightarrow> sz)"

definition dropped :: "int list \<Rightarrow> skip_area list \<Rightarrow> int list \<Rightarrow> nat \<Rightarrow> bool" where
  "dropped excluded skip_areas positions i =
     (int i + 1 \<in> set excluded \<or>
      is_in_skip_area (positions ! i) (positions ! (i + 1)) skip_areas)"

definition base_artifact ::
  "env \<Rightarrow> string \<Rightarrow> string \<Rightarrow> string \<Rightarrow> int \<Rightarrow> int list \<Rightarrow> nat \<Rightarrow> segment_output" where
  "base_artifact e src the_sku dir img_width positions i =
     (let box = (0, positions ! i, img_width, positions ! (i + 1));
          name = the_sku @ ''_'' @ fmt_03d (int i + 1) @ ''.jpg''
      in output_entry (int i + 1) name box (img_width, positions ! (i + 1) - positions ! i)
           (saved_size e (jpeg_request src box (dir @ ''/'' @ name))) the_sku False)"

definition size_artifact ::
  "env \<Rightarrow> string \<Rightarrow> string \<Rightarrow> string \<Rightarrow> int \<Rightarrow> int list \<Rightarrow> nat \<Rightarrow> segment_output" where
  "size_artifact e src the_sku dir img_width positions i =
     (let box = (0, positions ! i, img_width, positions ! (i + 1));
          name = the_sku @ ''_'' @ fmt_03d (int i + 1) @ ''-size.jpg''
      in output_entry (int i + 1) name box (img_width, positions ! (i + 1) - positions ! i)
           (saved_size e (jpeg_request src box (dir @ ''/'' @ name))) the_sku True)"

definition segment_artifacts ::
  "env \<Rightarrow> string \<Rightarrow> string \<Rightarrow> string \<Rightarrow> int \<Rightarrow> int list \<Rightarrow> skip_area list \<Rightarrow> int list \<Rightarrow> int list
   \<Rightarrow> nat \<Rightarrow> segment_output list" where
  "segment_artifacts e src the_sku dir img_width positions skip_areas excluded size_segments i =
     (if dropped excluded skip_areas positions i then []
      else if int i + 1 \<in> set size_segments
        then [base_artifact e src the_sku dir img_width positions i,
              size_artifact e src the_sku dir img_width positions i]
      else [base_artifact e src the_sku dir img_width positions i])"

text \<open>
  The request that the loop of \<^verbatim>\<open>split_image\<close> hands to the codec for the segment
  \<open>i\<close>.
\<close>

definition grid_request ::
  "config \<Rightarrow> string \<Rightarrow> string \<Rightarrow> string \<Rightarrow> int \<Rightarrow> int \<Rightarrow> int \<Rightarrow> int \<Rightarrow> int \<Rightarrow> nat
   \<Rightarrow> save_request" where
  "grid_request cfg image_path fmt output_path img_width img_height target_width target_height overlap i =
     (let top0 = int i * target_height - (int i * overlap);
          bottom0 = top0 + target_height;
          bottom_px = (if bottom0 > img_height then img_height else bottom0);
          top_px = (if bottom0 > img_height then img_height - target_height else top0)
      in \<lparr>rq_source = image_path, rq_box = (0, top_px, img_width, bottom_px),
          rq_resize = (if (img_width, bottom_px - top_px) \<noteq> (target_width, target_height)
                       then Some (target_width, target_height) else None),
          rq_dest = output_path @ ''/'' @
                    (path_stem image_path @ ''_'' @ fmt @ ''_'' @ fmt_03d (int i + 1) @ ''.jpg''),
          rq_format = output_format cfg, rq_quality = quality cfg\<rparr>)"

text \<open>The segments of a result, or none when the operation returned an error.\<close>

definition produced :: "error + split_result \<Rightarrow> segment_output list" where
  "produced r = (case r of Inl err \<Rightarrow> [] | Inr res \<Rightarrow> details res)"

definition batch_indices :: "error + batch_result \<Rightarrow> int list list" where
  "batch_indices r =
     (case r of Inl err \<Rightarrow> []
      | Inr b \<Rightarrow> map (\<lambda>entry. map index (produced (entry_result entry))) (results b))"

definition persisted :: "resume_store \<Rightarrow> string \<Rightarrow> string set" where
  "persisted store resume_file = (case store resume_file of None \<Rightarrow> {} | Some fs \<Rightarrow> fs)"

section \<open>A concrete world for the examples\<close>

text \<open>
  Two uploaded images of 800 by 3000 pixels and one file that does not decode. The codec
  refuses to write a crop without pixels, as Pillow's JPEG encoder does
  (\<^verbatim>\<open>cannot write empty image as JPEG\<close>), and every written file has 2048 bytes.
\<close>

definition demo_env :: env where
  "demo_env =
     \<lparr>img_open = (\<lambda>p. if p = ''uploads/a.png'' \<or> p = ''uploads/b.png'' then Inr (800, 3000)
                       else Inl ''cannot identify image file''),
      mkdir = (\<lambda>d. None),
      save = (\<lambda>rq. if box_top (rq_box rq) < box_bottom (rq_box rq) then Inr 2048
                    else Inl ''cannot write empty image as JPEG''),
      can_write = (\<lambda>p. True),
      as_completed = rev\<rparr>"

text \<open>The same world with a codec that writes any crop, also one without pixels.\<close>

definition lenient_env :: env where
  "lenient_env = demo_env\<lparr>save := (\<lambda>rq. Inr 2048)\<rparr>"

text \<open>A world whose disk is full, and one whose output directory cannot be created.\<close>

definition full_disk_env :: env where
  "full_disk_env = demo_env\<lparr>save := (\<lambda>rq. Inl ''No space left on device'')\<rparr>"

definition read_only_env :: env where
  "read_only_env = demo_env\<lparr>mkdir := (\<lambda>d. Some ''Permission denied'')\<rparr>"

definition demo_splitter :: splitter where
  "demo_splitter =
     \<lparr>current_image_path = Some ''uploads/a.png'',
      current_image_data = Some (800, 3000),
      current_sku = Some ''SKU1'',
      uploaded_images =
        [\<lparr>info_path = ''uploads/a.png'', info_filename = ''a.png'',
          info_url = ''/uploads/a.png'', info_size = (800, 3000)\<rparr>,
         \<lparr>info_path = ''uploads/b.png'', info_filename = ''b.png'',
          info_url = ''/uploads/b.png'', info_size = (800, 3000)\<rparr>],
      current_image_index = 0\<rparr>"

definition demo_config :: config where
  "demo_config =
     \<lparr>output_formats = [''custom'' \<mapsto> (800, 1000), ''instagram_square'' \<mapsto> (1080, 1080)],
      overlap_pixels = Some 0,
      quality = 95,
      output_format = ''JPEG''\<rparr>"

section \<open>Properties of the loops\<close>

lemma for_each_append:
  "for_each body (xs @ ys) s =
     (case for_each body xs s of Inl e \<Rightarrow> Inl e | Inr s' \<Rightarrow> for_each body ys s')"
  by (induction xs arbitrary: s) (auto split: sum.splits)

lemma for_each_snoc_Inr:
  assumes "for_each body (xs @ [x]) s = Inr t"
  obtains u where "for_each body xs s = Inr u" and "body x u = Inr t"
  using assms by (auto simp: for_each_append split: sum.splits)

lemma split_segment_Inr:
  assumes "split_segment e src the_sku dir w ps skips excl sizes i (int i + 1, c, info) = Inr (s', c', info')"
  shows "s' = int (Suc i) + 1
     \<and> c' = c + (if int i + 1 \<in> set excl then 1 else 0)
     \<and> info' = info @ segment_artifacts e src the_sku dir w ps skips excl sizes i"
  using assms
  by (auto simp: split_segment_def segment_artifacts_def dropped_def base_artifact_def
        size_artifact_def saved_size_def Let_def split: if_splits sum.splits)

lemma split_loop_Inr:
  "for_each (split_segment e src the_sku dir w ps skips excl sizes) [0 ..< n] (1, 0, []) = Inr (s, c, info)
   \<Longrightarrow> s = int n + 1
     \<and> c = length (filter (\<lambda>i. int i + 1 \<in> set excl) [0 ..< n])
     \<and> info = concat (map (segment_artifacts e src the_sku dir w ps skips excl sizes) [0 ..< n])"
proof (induction n arbitrary: s c info)
  case 0
  then show ?case by simp
next
  case (Suc n)
  from Suc.prems obtain u where
    u: "for_each (split_segment e src the_sku dir w ps skips excl sizes) [0 ..< n] (1, 0, []) = Inr u"
    and step: "split_segment e src the_sku dir w ps skips excl sizes n u = Inr (s, c, info)"
    by (auto elim: for_each_snoc_Inr)
  obtain s0 c0 info0 where u_eq: "u = (s0, c0, info0)" by (cases u)
  from Suc.IH [OF u [unfolded u_eq]] have
    s0: "s0 = int n + 1" and c0: "c0 = length (filter (\<lambda>i. int i + 1 \<in> set excl) [0 ..< n])"
    and info0: "info0 = concat (map (segment_artifacts e src the_sku dir w ps skips excl sizes) [0 ..< n])"
    by simp_all
  from split_segment_Inr [OF step [unfolded u_eq s0]]
  show ?case by (simp add: c0 info0)
qed

text \<open>Unfolding a successful call of \<^verbatim>\<open>split_by_positions\<close>.\<close>

lemma split_by_positions_Inr:
  assumes "split_by_positions e self cuts skips excl sizes out = Inr r"
  obtains src the_sku w h s c where
    "current_image_path self = Some src" "current_sku self = Some the_sku"
    "img_open e src = Inr (w, h)"
    "for_each (split_segment e src the_sku (out @ ''/manual_split/'' @ the_sku) w
                 (sorted_positions h cuts) skips excl sizes)
       [0 ..< length (sorted_positions h cuts) - 1] (1, 0, []) = Inr (s, c, details r)"
    "excluded_segments r = c" "splits_created r = length (details r)"
    "skipped_areas r = length skips" "cuts \<noteq> []"
proof -
  from assms have t: "truthy (current_image_path self)" "truthy (current_sku self)" "cuts \<noteq> []"
    by (auto simp: split_by_positions_def split: if_splits)
  then obtain src the_sku where
    p: "current_image_path self = Some src" and k: "current_sku self = Some the_sku"
    by (cases "current_image_path self"; cases "current_sku self") auto
  from assms t p k obtain w h where o: "img_open e src = Inr (w, h)"
    by (cases "img_open e src") (auto simp: split_by_positions_def)
  from assms t p k o that show ?thesis
    by (auto simp: split_by_positions_def Let_def split: option.splits sum.splits)
qed

text \<open>
  Claim C1. Whenever \<^verbatim>\<open>split_by_positions\<close> succeeds, its \<^verbatim>\<open>details\<close> are the
  artifacts of the boundary pairs of \<open>sorted([0] + cuts + [H])\<close> taken in order, where
  the pair at position \<open>i\<close> (from 0) carries the segment index \<open>i + 1\<close> whatever
  happens to the other pairs: a dropped pair contributes no artifact but still uses up
  its index. The count of segments dropped by exclusion is the number of positions whose
  index is in the excluded list.
\<close>

theorem segment_index_stable:
  assumes "split_by_positions e self cuts skips excl sizes out = Inr r"
    and "current_image_path self = Some src"
    and "current_sku self = Some the_sku"
    and "img_open e src = Inr (w, h)"
  shows "details r =
           concat (map (segment_artifacts e src the_sku (out @ ''/manual_split/'' @ the_sku) w
                          (sorted_positions h cuts) skips excl sizes)
                     [0 ..< length (sorted_positions h cuts) - 1])
       \<and> excluded_segments r =
           length (filter (\<lambda>i. int i + 1 \<in> set excl) [0 ..< length (sorted_positions h cuts) - 1])"
proof -
  from assms(1) obtain src' sku' w' h' s c where
    a: "current_image_path self = Some src'" "current_sku self = Some sku'"
       "img_open e src' = Inr (w', h')"
    and loop: "for_each (split_segment e src' sku' (out @ ''/manual_split/'' @ sku') w'
                 (sorted_positions h' cuts) skips excl sizes)
       [0 ..< length (sorted_positions h' cuts) - 1] (1, 0, []) = Inr (s, c, details r)"
    and c: "excluded_segments r = c"
    by (rule split_by_positions_Inr)
  from a assms(2-4) have eq: "src' = src" "sku' = the_sku" "w' = w" "h' = h" by auto
  from split_loop_Inr [OF loop] c show ?thesis by (simp add: eq)
qed

lemma base_artifact_fields [simp]:
  "index (base_artifact e src k dir w ps i) = int i + 1"
  "crop_box (base_artifact e src k dir w ps i) = (0, ps ! i, w, ps ! (i + 1))"
  "dimensions (base_artifact e src k dir w ps i) = (w, ps ! (i + 1) - ps ! i)"
  "filename (base_artifact e src k dir w ps i) = k @ ''_'' @ fmt_03d (int i + 1) @ ''.jpg''"
  "has_size_suffix (base_artifact e src k dir w ps i) = False"
  "sku (base_artifact e src k dir w ps i) = k"
  by (simp_all add: base_artifact_def output_entry_def Let_def)

lemma size_artifact_fields [simp]:
  "index (size_artifact e src k dir w ps i) = int i + 1"
  "crop_box (size_artifact e src k dir w ps i) = (0, ps ! i, w, ps ! (i + 1))"
  "dimensions (size_artifact e src k dir w ps i) = (w, ps ! (i + 1) - ps ! i)"
  "filename (size_artifact e src k dir w ps i) = k @ ''_'' @ fmt_03d (int i + 1) @ ''-size.jpg''"
  "has_size_suffix (size_artifact e src k dir w ps i) = True"
  "sku (size_artifact e src k dir w ps i) = k"
  by (simp_all add: size_artifact_def output_entry_def Let_def)

text \<open>
  The scenario of the specification: height 3000, cuts at 1000 and 2000, segment 2
  excluded. Segments 1 and 3 survive under their own numbers, and one segment is counted
  as dropped by exclusion.
\<close>

theorem segment_index_stable_witness:
  "map index (produced (split_by_positions demo_env demo_splitter [1000, 2000] [] [2] [] ''output'')) = [1, 3]
   \<and> map crop_box (produced (split_by_positions demo_env demo_splitter [1000, 2000] [] [2] [] ''output''))
       = [(0, 0, 800, 1000), (0, 2000, 800, 3000)]
   \<and> excluded_segments (projr (split_by_positions demo_env demo_splitter [1000, 2000] [] [2] [] ''output'')) = 1"
proof -
  let ?r = "split_by_positions demo_env demo_splitter [1000, 2000] [] [2] [] ''output''"
  have ok: "?r = Inr (projr ?r)" by code_simp
  have p: "current_image_path demo_splitter = Some ''uploads/a.png''"
    and k: "current_sku demo_splitter = Some ''SKU1''"
    by (simp_all add: demo_splitter_def)
  have o: "img_open demo_env ''uploads/a.png'' = Inr (800, 3000)"
    by (simp add: demo_env_def)
  have ps: "sorted_positions 3000 [1000, 2000] = [0, 1000, 2000, 3000]"
    by (simp add: sorted_positions_def)
  have up: "[0 ..< 3] = [0, 1, 2]" by (simp add: upt_rec)
  note c = segment_index_stable [OF ok p k o, unfolded ps]
  have d: "details (projr ?r) = produced ?r"
    by (subst (2) ok) (simp add: produced_def)
  note c1 = c [THEN conjunct1] and c2 = c [THEN conjunct2]
  have "map index (produced ?r) = [1, 3]"
    unfolding d [symmetric] c1
    by (simp add: up segment_artifacts_def dropped_def)
  moreover have "map crop_box (produced ?r) = [(0, 0, 800, 1000), (0, 2000, 800, 3000)]"
    unfolding d [symmetric] c1
    by (simp add: up segment_artifacts_def dropped_def)
  moreover have "excluded_segments (projr ?r) = 1"
    unfolding c2 by (simp add: up)
  ultimately show ?thesis by simp
qed

text \<open>
  Claim C3 says that a call without cut positions yields one segment that spans the whole
  image. The first test of \<^verbatim>\<open>split_by_positions\<close> rejects an empty list of cut
  positions with the same error as a missing image.
\<close>

theorem no_cuts_single_segment_counterexample:
  "split_by_positions demo_env demo_splitter [] [] [] [] ''output'' = Inl NoImageOrNoCutPositions"
  by (simp add: split_by_positions_def)

text \<open>
  Claim C3, amended. For every loaded image, \<^verbatim>\<open>split_by_positions\<close> called with no
  cut positions returns the error for a missing image or missing cut positions, and
  produces no segment.
\<close>

theorem no_cuts_is_error:
  "split_by_positions e self [] skips excl sizes out = Inl NoImageOrNoCutPositions
   \<and> produced (split_by_positions e self [] skips excl sizes out) = []"
  by (simp add: split_by_positions_def produced_def)

theorem no_cuts_is_error_witness:
  "split_by_positions demo_env demo_splitter [] [\<lparr>skip_start = 100, skip_end = 200\<rparr>] [2] [1] ''output''
     = Inl NoImageOrNoCutPositions
   \<and> produced (split_by_positions demo_env demo_splitter [] [\<lparr>skip_start = 100, skip_end = 200\<rparr>]
                 [2] [1] ''output'') = []"
  by (rule no_cuts_is_error)

lemma is_in_skip_area_iff:
  "is_in_skip_area t b as \<longleftrightarrow> (\<exists>a \<in> set as. \<not> (b \<le> skip_start a \<or> t \<ge> skip_end a))"
  by (induction as) auto

lemma for_each_cong_on:
  "(\<And>x s. x \<in> set xs \<Longrightarrow> f x s = g x s) \<Longrightarrow> for_each f xs s = for_each g xs s"
  by (induction xs arbitrary: s) (auto split: sum.splits)

lemma split_segment_skip_cong:
  assumes "is_in_skip_area (ps ! i) (ps ! (i + 1)) sk = is_in_skip_area (ps ! i) (ps ! (i + 1)) sk'"
  shows "split_segment e src k dir w ps sk excl sizes i st = split_segment e src k dir w ps sk' excl sizes i st"
  using assms by (simp add: split_segment_def Let_def split: prod.splits)

lemma sorted_sorted_positions [simp]: "sorted (sorted_positions h cuts)"
  unfolding sorted_positions_def by (rule sorted_sort)

lemma length_sorted_positions: "length (sorted_positions h cuts) = length cuts + 2"
  unfolding sorted_positions_def by (simp del: sort_key_simps)

lemma nothing_between_neighbours:
  assumes "sorted ps" "p \<in> set ps" "i + 1 < length ps"
  shows "\<not> (ps ! i < p \<and> p < ps ! (i + 1))"
proof -
  from assms(2) obtain j where j: "j < length ps" "ps ! j = p"
    by (auto simp: in_set_conv_nth)
  show ?thesis
  proof (cases "j \<le> i")
    case True
    with assms(1,3) have "ps ! j \<le> ps ! i" by (simp add: sorted_nth_mono)
    with j show ?thesis by auto
  next
    case False
    then have "i + 1 \<le> j" by simp
    with assms(1) j(1) have "ps ! (i + 1) \<le> ps ! j" by (simp add: sorted_nth_mono)
    with j show ?thesis by auto
  qed
qed

text \<open>
  Claim C2 says that a skip area whose start equals its end drops no segment. The overlap
  test \<^verbatim>\<open>not (bottom <= skip_start or top >= skip_end)\<close> holds for such an area when
  its point lies strictly inside the segment: with cuts at 1000 and 2000, the area from
  1500 to 1500 drops segment 2.
\<close>

theorem zero_width_skip_counterexample:
  "map index (produced (split_by_positions demo_env demo_splitter [1000, 2000]
                          [\<lparr>skip_start = 1500, skip_end = 1500\<rparr>] [] [] ''output'')) = [1, 3]
   \<and> map index (produced (split_by_positions demo_env demo_splitter [1000, 2000]
                          [] [] [] ''output'')) = [1, 2, 3]"
  by code_simp

text \<open>
  Claim C2, amended. A skip area whose start equals its end drops exactly the segments
  that hold its point strictly between top and bottom. When the point is one of the
  sorted boundaries, among them 0 and the image height, no segment holds it so, and the
  segments produced with the area present are those produced with it absent.
\<close>

theorem zero_width_skip_area:
  assumes zw: "skip_start a = skip_end a"
  shows "(is_in_skip_area t b (xs @ a # ys) \<longleftrightarrow>
            is_in_skip_area t b (xs @ ys) \<or> (t < skip_start a \<and> skip_start a < b))
       \<and> (current_image_path self = Some src \<longrightarrow> img_open e src = Inr (w, h) \<longrightarrow>
            skip_start a \<in> set (sorted_positions h cuts) \<longrightarrow>
            produced (split_by_positions e self cuts (xs @ a # ys) excl sizes out)
              = produced (split_by_positions e self cuts (xs @ ys) excl sizes out))"
proof (intro conjI impI)
  show crit: "is_in_skip_area t b (xs @ a # ys) \<longleftrightarrow>
            is_in_skip_area t b (xs @ ys) \<or> (t < skip_start a \<and> skip_start a < b)" for t b
    using zw by (auto simp: is_in_skip_area_iff)
  assume p: "current_image_path self = Some src" and o: "img_open e src = Inr (w, h)"
    and on: "skip_start a \<in> set (sorted_positions h cuts)"
  let ?ps = "sorted_positions h cuts"
  have same: "is_in_skip_area (?ps ! i) (?ps ! (i + 1)) (xs @ a # ys)
                = is_in_skip_area (?ps ! i) (?ps ! (i + 1)) (xs @ ys)"
    if "i \<in> set [0 ..< length ?ps - 1]" for i
  proof -
    from that have "i + 1 < length ?ps" by (auto simp: length_sorted_positions)
    from nothing_between_neighbours [OF sorted_sorted_positions on this]
    show ?thesis by (auto simp: crit)
  qed
  have loop: "for_each (split_segment e src k dir w ?ps (xs @ a # ys) excl sizes)
                [0 ..< length ?ps - 1] s0
            = for_each (split_segment e src k dir w ?ps (xs @ ys) excl sizes)
                [0 ..< length ?ps - 1] s0" for k dir s0
    by (rule for_each_cong_on) (rule split_segment_skip_cong, rule same)
  show "produced (split_by_positions e self cuts (xs @ a # ys) excl sizes out)
          = produced (split_by_positions e self cuts (xs @ ys) excl sizes out)"
    using p o
    by (simp add: split_by_positions_def produced_def Let_def loop [unfolded One_nat_def]
          split: option.splits sum.splits prod.splits)
qed

theorem zero_width_skip_area_witness:
  "is_in_skip_area 1000 2000 ([] @ \<lparr>skip_start = 1000, skip_end = 1000\<rparr> # []) = False
   \<and> map index (produced (split_by_positions demo_env demo_splitter [1000, 2000]
                            ([] @ \<lparr>skip_start = 1000, skip_end = 1000\<rparr> # []) [] [] ''output''))
       = [1, 2, 3]"
proof -
  let ?a = "\<lparr>skip_start = 1000, skip_end = 1000\<rparr>"
  have zw: "skip_start ?a = skip_end ?a" by simp
  have p: "current_image_path demo_splitter = Some ''uploads/a.png''"
    by (simp add: demo_splitter_def)
  have o: "img_open demo_env ''uploads/a.png'' = Inr (800, 3000)"
    by (simp add: demo_env_def)
  have on: "skip_start ?a \<in> set (sorted_positions 3000 [1000, 2000])"
    by (simp add: sorted_positions_def)
  have base: "map index (produced (split_by_positions demo_env demo_splitter [1000, 2000]
                            ([] @ []) [] [] ''output'')) = [1, 2, 3]"
    by code_simp
  note t = zero_width_skip_area [OF zw, of 1000 2000 "[]" "[]" demo_splitter "''uploads/a.png''"
              demo_env 800 3000 "[1000, 2000]" "[]" "[]" "''output''"]
  from t [THEN conjunct1] have "is_in_skip_area 1000 2000 ([] @ ?a # []) = False" by simp
  moreover from t [THEN conjunct2] p o on base
  have "map index (produced (split_by_positions demo_env demo_splitter [1000, 2000]
                            ([] @ ?a # []) [] [] ''output'')) = [1, 2, 3]"
    by simp
  ultimately show ?thesis by simp
qed

lemma filter_index_segment_artifacts:
  "filter (\<lambda>x. index x = int i + 1) (segment_artifacts e src k dir w ps skips excl sizes j)
     = (if j = i then segment_artifacts e src k dir w ps skips excl sizes j else [])"
  by (simp add: segment_artifacts_def)

lemma filter_index_planned:
  "i < n \<Longrightarrow>
   filter (\<lambda>x. index x = int i + 1)
     (concat (map (segment_artifacts e src k dir w ps skips excl sizes) [0 ..< n]))
   = segment_artifacts e src k dir w ps skips excl sizes i"
proof (induction n)
  case 0
  then show ?case by simp
next
  case (Suc n)
  show ?case
  proof (cases "i = n")
    case True
    have "filter (\<lambda>x. index x = int i + 1)
            (concat (map (segment_artifacts e src k dir w ps skips excl sizes) [0 ..< n])) = []"
      unfolding True by (auto simp: filter_empty_conv segment_artifacts_def split: if_splits)
    then show ?thesis by (simp add: filter_index_segment_artifacts True)
  next
    case False
    with Suc.prems have "i < n" by simp
    with Suc.IH False show ?thesis by (simp add: filter_index_segment_artifacts)
  qed
qed

text \<open>
  Claim C6. In a successful split, the artifacts that carry the index of a surviving
  segment are exactly two when the index is in the size-suffix list: the base artifact
  (flag false) and the \<^verbatim>\<open>-size\<close> artifact (flag true), with the same crop box and
  dimensions and with different file names. They are exactly one, the base artifact,
  when the index is not in the list.
\<close>

theorem size_suffix_two_artifacts:
  assumes ok: "split_by_positions e self cuts skips excl sizes out = Inr r"
    and p: "current_image_path self = Some src"
    and k: "current_sku self = Some the_sku"
    and o: "img_open e src = Inr (w, h)"
    and i: "i < length (sorted_positions h cuts) - 1"
    and surv: "\<not> dropped excl skips (sorted_positions h cuts) i"
  shows "(int i + 1 \<in> set sizes \<longrightarrow>
            (\<exists>b s. filter (\<lambda>x. index x = int i + 1) (details r) = [b, s]
               \<and> crop_box b = (0, sorted_positions h cuts ! i, w, sorted_positions h cuts ! (i + 1))
               \<and> crop_box s = crop_box b \<and> dimensions s = dimensions b
               \<and> \<not> has_size_suffix b \<and> has_size_suffix s
               \<and> filename b = the_sku @ ''_'' @ fmt_03d (int i + 1) @ ''.jpg''
               \<and> filename s = the_sku @ ''_'' @ fmt_03d (int i + 1) @ ''-size.jpg''
               \<and> filename b \<noteq> filename s))
       \<and> (int i + 1 \<notin> set sizes \<longrightarrow>
            (\<exists>b. filter (\<lambda>x. index x = int i + 1) (details r) = [b]
               \<and> crop_box b = (0, sorted_positions h cuts ! i, w, sorted_positions h cuts ! (i + 1))
               \<and> \<not> has_size_suffix b
               \<and> filename b = the_sku @ ''_'' @ fmt_03d (int i + 1) @ ''.jpg''))"
proof -
  let ?ps = "sorted_positions h cuts"
  let ?dir = "out @ ''/manual_split/'' @ the_sku"
  from ok obtain src' sku' w' h' s c where
    a: "current_image_path self = Some src'" "current_sku self = Some sku'"
       "img_open e src' = Inr (w', h')"
    and loop: "for_each (split_segment e src' sku' (out @ ''/manual_split/'' @ sku') w'
                 (sorted_positions h' cuts) skips excl sizes)
       [0 ..< length (sorted_positions h' cuts) - 1] (1, 0, []) = Inr (s, c, details r)"
    by (rule split_by_positions_Inr)
  from a p k o have eq: "src' = src" "sku' = the_sku" "w' = w" "h' = h" by auto
  from split_loop_Inr [OF loop] have
    d: "details r = concat (map (segment_artifacts e src the_sku ?dir w ?ps skips excl sizes)
                              [0 ..< length ?ps - 1])"
    by (simp add: eq)
  have f: "filter (\<lambda>x. index x = int i + 1) (details r)
             = segment_artifacts e src the_sku ?dir w ?ps skips excl sizes i"
    unfolding d by (rule filter_index_planned [OF i])
  show ?thesis
    unfolding f using surv by (simp add: segment_artifacts_def)
qed


lemma fmt_03d_examples: "fmt_03d 1 = ''001''" "fmt_03d 2 = ''002''" "fmt_03d 3 = ''003''"
  by code_simp+

theorem size_suffix_two_artifacts_witness:
  "(\<exists>b s. filter (\<lambda>x. index x = 1)
             (produced (split_by_positions demo_env demo_splitter [1000, 2000] [] [] [1] ''output'')) = [b, s]
        \<and> crop_box b = (0, 0, 800, 1000) \<and> crop_box s = crop_box b \<and> dimensions s = dimensions b
        \<and> \<not> has_size_suffix b \<and> has_size_suffix s
        \<and> filename b = ''SKU1_001.jpg'' \<and> filename s = ''SKU1_001-size.jpg'')
   \<and> (\<exists>b. filter (\<lambda>x. index x = 2)
             (produced (split_by_positions demo_env demo_splitter [1000, 2000] [] [] [1] ''output'')) = [b]
        \<and> crop_box b = (0, 1000, 800, 2000) \<and> \<not> has_size_suffix b
        \<and> filename b = ''SKU1_002.jpg'')"
proof -
  let ?r = "split_by_positions demo_env demo_splitter [1000, 2000] [] [] [1] ''output''"
  have ok: "?r = Inr (projr ?r)" by code_simp
  have p: "current_image_path demo_splitter = Some ''uploads/a.png''"
    and k: "current_sku demo_splitter = Some ''SKU1''"
    by (simp_all add: demo_splitter_def)
  have o: "img_open demo_env ''uploads/a.png'' = Inr (800, 3000)"
    by (simp add: demo_env_def)
  have ps: "sorted_positions 3000 [1000, 2000] = [0, 1000, 2000, 3000]"
    by (simp add: sorted_positions_def)
  have d: "details (projr ?r) = produced ?r"
    by (subst (2) ok) (simp add: produced_def)
  have i0: "0 < length (sorted_positions 3000 [1000, 2000]) - 1"
    and i1: "1 < length (sorted_positions 3000 [1000, 2000]) - 1"
    by (simp_all add: ps)
  have s0: "\<not> dropped [] [] (sorted_positions 3000 [1000, 2000]) 0"
    and s1: "\<not> dropped [] [] (sorted_positions 3000 [1000, 2000]) 1"
    by (simp_all add: dropped_def)
  from size_suffix_two_artifacts [OF ok p k o i0 s0, unfolded d ps]
  have a: "\<exists>b s. filter (\<lambda>x. index x = 1) (produced ?r) = [b, s]
        \<and> crop_box b = (0, 0, 800, 1000) \<and> crop_box s = crop_box b \<and> dimensions s = dimensions b
        \<and> \<not> has_size_suffix b \<and> has_size_suffix s
        \<and> filename b = ''SKU1_001.jpg'' \<and> filename s = ''SKU1_001-size.jpg''"
    by (simp add: fmt_03d_examples) blast
  from size_suffix_two_artifacts [OF ok p k o i1 s1, unfolded d ps]
  have b: "\<exists>b. filter (\<lambda>x. index x = 2) (produced ?r) = [b]
        \<and> crop_box b = (0, 1000, 800, 2000) \<and> \<not> has_size_suffix b
        \<and> filename b = ''SKU1_002.jpg''"
    by (simp add: fmt_03d_examples)
  from a b show ?thesis by blast
qed

lemma telescope_nth:
  fixes xs :: "int list"
  shows "(\<Sum>i\<leftarrow>[0 ..< n]. xs ! (i + 1) - xs ! i) = xs ! n - xs ! 0"
  by (induction n) simp_all

lemma set_sorted_positions: "set (sorted_positions h cuts) = insert 0 (insert h (set cuts))"
  unfolding sorted_positions_def by (auto simp del: sort_key_simps)

lemma first_sorted_position:
  assumes "0 \<le> h" "\<forall>c \<in> set cuts. 0 \<le> c \<and> c \<le> h"
  shows "sorted_positions h cuts ! 0 = 0"
proof -
  let ?ps = "sorted_positions h cuts"
  have len: "0 < length ?ps" by (simp add: length_sorted_positions)
  then have "?ps ! 0 \<in> set ?ps" by (rule nth_mem)
  with assms have lo: "0 \<le> ?ps ! 0" by (auto simp: set_sorted_positions)
  have "0 \<in> set ?ps" by (simp add: set_sorted_positions)
  then obtain j where "j < length ?ps" "?ps ! j = 0" by (auto simp: in_set_conv_nth)
  with sorted_nth_mono [OF sorted_sorted_positions, of 0 j h cuts] have "?ps ! 0 \<le> 0" by simp
  with lo show ?thesis by simp
qed

lemma last_sorted_position:
  assumes "0 \<le> h" "\<forall>c \<in> set cuts. 0 \<le> c \<and> c \<le> h"
  shows "sorted_positions h cuts ! (length (sorted_positions h cuts) - 1) = h"
proof -
  let ?ps = "sorted_positions h cuts"
  let ?n = "length ?ps - 1"
  have len: "?n < length ?ps" by (simp add: length_sorted_positions)
  then have "?ps ! ?n \<in> set ?ps" by (rule nth_mem)
  with assms have hi: "?ps ! ?n \<le> h" by (auto simp: set_sorted_positions)
  have "h \<in> set ?ps" by (simp add: set_sorted_positions)
  then obtain j where j: "j < length ?ps" "?ps ! j = h" by (auto simp: in_set_conv_nth)
  then have "j \<le> ?n" by simp
  from sorted_nth_mono [OF sorted_sorted_positions this len] j have "h \<le> ?ps ! ?n" by simp
  with hi show ?thesis by simp
qed

text \<open>
  Claim C9. For an image height \<open>h \<ge> 0\<close> and cut positions that all lie in
  \<open>[0, h]\<close>, the heights \<open>bottom - top\<close> of all consecutive pairs of
  \<open>sorted([0] + cuts + [h])\<close>, dropped or not, add up to \<open>h\<close>.
\<close>

theorem segment_heights_sum:
  assumes "0 \<le> h" and "\<forall>c \<in> set cuts. 0 \<le> c \<and> c \<le> h"
  shows "(\<Sum>i\<leftarrow>[0 ..< length (sorted_positions h cuts) - 1].
            sorted_positions h cuts ! (i + 1) - sorted_positions h cuts ! i) = h"
  unfolding telescope_nth
  using first_sorted_position [OF assms] last_sorted_position [OF assms] by simp

theorem segment_heights_sum_witness:
  "(0::int) \<le> 3000
   \<and> (\<Sum>i\<leftarrow>[0 ..< length (sorted_positions 3000 [1000, 2000]) - 1].
          sorted_positions 3000 [1000, 2000] ! (i + 1) - sorted_positions 3000 [1000, 2000] ! i) = 3000"
proof -
  have a: "(0::int) \<le> 3000" by simp
  have b: "\<forall>c \<in> set [1000, 2000 :: int]. 0 \<le> c \<and> c \<le> 3000" by simp
  from segment_heights_sum [OF a b] a show ?thesis by blast
qed


lemma for_each_invariant:
  assumes "for_each body xs s = Inr t" and "P s"
    and "\<And>x s s'. P s \<Longrightarrow> body x s = Inr s' \<Longrightarrow> P s'"
  shows "P t"
  using assms(1,2)
proof (induction xs arbitrary: s)
  case Nil
  then show ?case by simp
next
  case (Cons x xs)
  from Cons.prems(1) obtain u where u: "body x s = Inr u" and rest: "for_each body xs u = Inr t"
    by (auto split: sum.splits)
  from assms(3) [OF Cons.prems(2) u] have "P u" .
  with Cons.IH rest show ?case by blast
qed

lemma saved_not_empty:
  assumes "\<And>rq. box_top (rq_box rq) = box_bottom (rq_box rq) \<Longrightarrow> isl (save e rq)"
    and "save e (jpeg_request src box d) = Inr z"
  shows "box_top box \<noteq> box_bottom box"
proof
  assume "box_top box = box_bottom box"
  then have "isl (save e (jpeg_request src box d))"
    by (intro assms(1)) (simp add: jpeg_request_def)
  with assms(2) show False by simp
qed

lemma split_segment_not_empty:
  assumes refuses: "\<And>rq. box_top (rq_box rq) = box_bottom (rq_box rq) \<Longrightarrow> isl (save e rq)"
    and step: "split_segment e src k dir w ps skips excl sizes i (s, c, info) = Inr (s', c', info')"
    and inv: "\<forall>x \<in> set info. box_top (crop_box x) \<noteq> box_bottom (crop_box x)"
  shows "\<forall>x \<in> set info'. box_top (crop_box x) \<noteq> box_bottom (crop_box x)"
proof (cases "s \<in> set excl \<or> is_in_skip_area (ps ! i) (ps ! (i + 1)) skips")
  case True
  with step have "info' = info"
    by (auto simp: split_segment_def Let_def split: if_splits)
  with inv show ?thesis by simp
next
  case False
  let ?box = "(0, ps ! i, w, ps ! (i + 1))"
  from False step obtain d z where sv: "save e (jpeg_request src ?box d) = Inr z"
    by (auto simp: split_segment_def Let_def split: if_splits sum.splits)
  from saved_not_empty [OF refuses sv] have ne: "box_top ?box \<noteq> box_bottom ?box" .
  from False step have "\<forall>x \<in> set info'. x \<in> set info \<or> crop_box x = ?box"
    by (auto simp: split_segment_def Let_def output_entry_def split: if_splits sum.splits)
  with inv ne show ?thesis by auto
qed

lemma split_loop_not_empty:
  assumes refuses: "\<And>rq. box_top (rq_box rq) = box_bottom (rq_box rq) \<Longrightarrow> isl (save e rq)"
    and loop: "for_each (split_segment e src k dir w ps skips excl sizes) is (1, 0, []) = Inr (s, c, info)"
  shows "\<forall>x \<in> set info. box_top (crop_box x) \<noteq> box_bottom (crop_box x)"
proof -
  let ?P = "\<lambda>st. \<forall>x \<in> set (snd (snd st)). box_top (crop_box x) \<noteq> box_bottom (crop_box x)"
  have "?P (s, c, info)"
  proof (rule for_each_invariant [OF loop, where P = ?P])
    show "?P (1, 0, [])" by simp
  next
    fix x st st'
    assume "?P st" and "split_segment e src k dir w ps skips excl sizes x st = Inr st'"
    then show "?P st'"
      using split_segment_not_empty [OF refuses, of src k dir w ps skips excl sizes x "fst st"
              "fst (snd st)" "snd (snd st)" "fst st'" "fst (snd st')" "snd (snd st')"]
      by simp
  qed
  then show ?thesis by simp
qed

lemma planned_box:
  assumes "x \<in> set (concat (map (segment_artifacts e src k dir w ps skips excl sizes) [0 ..< n]))"
  obtains i where "i < n" "crop_box x = (0, ps ! i, w, ps ! (i + 1))"
  using assms by (auto simp: segment_artifacts_def split: if_splits)

text \<open>
  For a codec that refuses to write a crop without pixels, a surviving pair with top
  equal to bottom ends the call with the codec's exception: every segment of a successful
  result then has top less than bottom.
\<close>

lemma refusing_codec_rejects:
  assumes refuses: "\<And>rq. box_top (rq_box rq) = box_bottom (rq_box rq) \<Longrightarrow> isl (save e rq)"
    and p: "current_image_path self = Some src"
    and k: "current_sku self = Some the_sku"
    and o: "img_open e src = Inr (w, h)"
  shows "(\<forall>r. split_by_positions e self cuts skips excl sizes out = Inr r \<longrightarrow>
            (\<forall>x \<in> set (details r). box_top (crop_box x) < box_bottom (crop_box x)))
       \<and> ((\<exists>i < length (sorted_positions h cuts) - 1.
              sorted_positions h cuts ! i = sorted_positions h cuts ! (i + 1)
              \<and> \<not> dropped excl skips (sorted_positions h cuts) i) \<longrightarrow>
            isl (split_by_positions e self cuts skips excl sizes out))"
proof -
  let ?ps = "sorted_positions h cuts"
  let ?dir = "out @ ''/manual_split/'' @ the_sku"
  let ?arts = "segment_artifacts e src the_sku ?dir w ?ps skips excl sizes"
  have char: "details r = concat (map ?arts [0 ..< length ?ps - 1])
            \<and> (\<forall>x \<in> set (details r). box_top (crop_box x) \<noteq> box_bottom (crop_box x))"
    if ok: "split_by_positions e self cuts skips excl sizes out = Inr r" for r
  proof -
    from ok obtain src' sku' w' h' s c where
      a: "current_image_path self = Some src'" "current_sku self = Some sku'"
         "img_open e src' = Inr (w', h')"
      and loop: "for_each (split_segment e src' sku' (out @ ''/manual_split/'' @ sku') w'
                   (sorted_positions h' cuts) skips excl sizes)
         [0 ..< length (sorted_positions h' cuts) - 1] (1, 0, []) = Inr (s, c, details r)"
      by (rule split_by_positions_Inr)
    from a p k o have eq: "src' = src" "sku' = the_sku" "w' = w" "h' = h" by auto
    from split_loop_Inr [OF loop] split_loop_not_empty [OF refuses loop] show ?thesis
      by (simp add: eq)
  qed
  have pos: "\<forall>x \<in> set (details r). box_top (crop_box x) < box_bottom (crop_box x)"
    if ok: "split_by_positions e self cuts skips excl sizes out = Inr r" for r
  proof
    fix x assume x: "x \<in> set (details r)"
    with char [OF ok] have "x \<in> set (concat (map ?arts [0 ..< length ?ps - 1]))"
      by simp
    then obtain i where i: "i < length ?ps - 1"
      and box: "crop_box x = (0, ?ps ! i, w, ?ps ! (i + 1))"
      by (rule planned_box)
    from i have "?ps ! i \<le> ?ps ! (i + 1)"
      by (intro sorted_nth_mono [OF sorted_sorted_positions]) simp_all
    moreover from char [OF ok] x have "box_top (crop_box x) \<noteq> box_bottom (crop_box x)"
      by blast
    ultimately show "box_top (crop_box x) < box_bottom (crop_box x)"
      by (simp add: box box_top_def box_bottom_def)
  qed
  have rej: "isl (split_by_positions e self cuts skips excl sizes out)"
    if i: "i < length ?ps - 1" and z: "?ps ! i = ?ps ! (i + 1)"
      and surv: "\<not> dropped excl skips ?ps i" for i
  proof (cases "split_by_positions e self cuts skips excl sizes out")
    case (Inl err)
    then show ?thesis by simp
  next
    case (Inr r)
    from surv have "base_artifact e src the_sku ?dir w ?ps i \<in> set (?arts i)"
      by (simp add: segment_artifacts_def)
    with i char [OF Inr] have "base_artifact e src the_sku ?dir w ?ps i \<in> set (details r)"
      by auto
    with pos [OF Inr] z show ?thesis
      by (auto simp: box_top_def box_bottom_def)
  qed
  from pos rej show ?thesis by blast
qed


lemma segment_details:
  assumes ok: "split_by_positions e self cuts skips excl sizes out = Inr r"
    and p: "current_image_path self = Some src"
    and k: "current_sku self = Some the_sku"
    and o: "img_open e src = Inr (w, h)"
  shows "details r =
           concat (map (segment_artifacts e src the_sku (out @ ''/manual_split/'' @ the_sku) w
                          (sorted_positions h cuts) skips excl sizes)
                     [0 ..< length (sorted_positions h cuts) - 1])"
proof -
  from ok obtain src' sku' w' h' s c where
    a: "current_image_path self = Some src'" "current_sku self = Some sku'"
       "img_open e src' = Inr (w', h')"
    and loop: "for_each (split_segment e src' sku' (out @ ''/manual_split/'' @ sku') w'
                 (sorted_positions h' cuts) skips excl sizes)
       [0 ..< length (sorted_positions h' cuts) - 1] (1, 0, []) = Inr (s, c, details r)"
    by (rule split_by_positions_Inr)
  from a p k o have eq: "src' = src" "sku' = the_sku" "w' = w" "h' = h" by auto
  from split_loop_Inr [OF loop] show ?thesis by (simp add: eq)
qed

text \<open>
  Claim C5 says that identical adjacent boundaries are rejected or collapsed, so that no
  produced segment has top equal to bottom. \<^verbatim>\<open>split_by_positions\<close> has no such step:
  with a cut at 0 the sorted boundaries are 0, 0 and the height, and segment 1 is cropped
  with the box from 0 to 0. With a codec that writes that crop, the result holds it.
\<close>

theorem zero_height_box_counterexample:
  "map crop_box (produced (split_by_positions lenient_env demo_splitter [0] [] [] [] ''output''))
     = [(0, 0, 800, 0), (0, 0, 800, 3000)]"
  by code_simp

text \<open>
  Claim C5, amended. \<^verbatim>\<open>split_by_positions\<close> neither rejects nor collapses identical
  adjacent boundaries. In every successful result each segment has top at most bottom,
  and every pair of consecutive boundaries that is not dropped has its artifact, under its
  own index and with its own crop box, also when top equals bottom. A cut list with a
  surviving pair of identical boundaries is rejected only by a codec that refuses to write
  a crop without pixels: then the call returns an error result, and every segment of a
  successful result has top less than bottom.
\<close>

theorem zero_height_not_filtered:
  assumes p: "current_image_path self = Some src"
    and k: "current_sku self = Some the_sku"
    and o: "img_open e src = Inr (w, h)"
  shows "(\<forall>r. split_by_positions e self cuts skips excl sizes out = Inr r \<longrightarrow>
            (\<forall>x \<in> set (details r). box_top (crop_box x) \<le> box_bottom (crop_box x))
          \<and> (\<forall>i < length (sorted_positions h cuts) - 1.
                \<not> dropped excl skips (sorted_positions h cuts) i \<longrightarrow>
                (\<exists>x \<in> set (details r). index x = int i + 1
                    \<and> crop_box x = (0, sorted_positions h cuts ! i, w,
                                     sorted_positions h cuts ! (i + 1)))))
       \<and> ((\<forall>rq. box_top (rq_box rq) = box_bottom (rq_box rq) \<longrightarrow> isl (save e rq)) \<longrightarrow>
            (\<forall>r. split_by_positions e self cuts skips excl sizes out = Inr r \<longrightarrow>
               (\<forall>x \<in> set (details r). box_top (crop_box x) < box_bottom (crop_box x)))
          \<and> ((\<exists>i < length (sorted_positions h cuts) - 1.
                 sorted_positions h cuts ! i = sorted_positions h cuts ! (i + 1)
                 \<and> \<not> dropped excl skips (sorted_positions h cuts) i) \<longrightarrow>
               isl (split_by_positions e self cuts skips excl sizes out)))"
proof (intro conjI allI impI)
  let ?ps = "sorted_positions h cuts"
  let ?dir = "out @ ''/manual_split/'' @ the_sku"
  let ?arts = "segment_artifacts e src the_sku ?dir w ?ps skips excl sizes"
  fix r assume ok: "split_by_positions e self cuts skips excl sizes out = Inr r"
  from segment_details [OF ok p k o]
  have d: "details r = concat (map ?arts [0 ..< length ?ps - 1])" .
  show "\<forall>x \<in> set (details r). box_top (crop_box x) \<le> box_bottom (crop_box x)"
  proof
    fix x assume "x \<in> set (details r)"
    then have "x \<in> set (concat (map ?arts [0 ..< length ?ps - 1]))" by (simp add: d)
    then obtain i where i: "i < length ?ps - 1"
      and box: "crop_box x = (0, ?ps ! i, w, ?ps ! (i + 1))"
      by (rule planned_box)
    from i have "?ps ! i \<le> ?ps ! (i + 1)"
      by (intro sorted_nth_mono [OF sorted_sorted_positions]) simp_all
    then show "box_top (crop_box x) \<le> box_bottom (crop_box x)"
      by (simp add: box box_top_def box_bottom_def)
  qed
  fix i assume i: "i < length ?ps - 1" and surv: "\<not> dropped excl skips ?ps i"
  from surv have "base_artifact e src the_sku ?dir w ?ps i \<in> set (?arts i)"
    by (simp add: segment_artifacts_def)
  with i have "base_artifact e src the_sku ?dir w ?ps i \<in> set (details r)"
    unfolding d by auto
  then show "\<exists>x \<in> set (details r). index x = int i + 1
                \<and> crop_box x = (0, ?ps ! i, w, ?ps ! (i + 1))"
    by (rule bexI [rotated]) simp
next
  fix r
  assume "\<forall>rq. box_top (rq_box rq) = box_bottom (rq_box rq) \<longrightarrow> isl (save e rq)"
    and "split_by_positions e self cuts skips excl sizes out = Inr r"
  with refusing_codec_rejects [OF _ p k o, of cuts skips excl sizes out]
  show "\<forall>x \<in> set (details r). box_top (crop_box x) < box_bottom (crop_box x)"
    by blast
next
  assume "\<forall>rq. box_top (rq_box rq) = box_bottom (rq_box rq) \<longrightarrow> isl (save e rq)"
    and "\<exists>i < length (sorted_positions h cuts) - 1.
           sorted_positions h cuts ! i = sorted_positions h cuts ! (i + 1)
           \<and> \<not> dropped excl skips (sorted_positions h cuts) i"
  with refusing_codec_rejects [OF _ p k o, of cuts skips excl sizes out]
  show "isl (split_by_positions e self cuts skips excl sizes out)"
    by blast
qed

theorem zero_height_not_filtered_witness:
  "(0, 1000, 800, 1000)
     \<in> set (map crop_box
               (produced (split_by_positions lenient_env demo_splitter [1000, 1000] [] [] [] ''output'')))
   \<and> isl (split_by_positions demo_env demo_splitter [1000, 1000] [] [] [] ''output'')"
proof -
  have p: "current_image_path demo_splitter = Some ''uploads/a.png''"
    and k: "current_sku demo_splitter = Some ''SKU1''"
    by (simp_all add: demo_splitter_def)
  have o: "img_open demo_env ''uploads/a.png'' = Inr (800, 3000)"
    and o': "img_open lenient_env ''uploads/a.png'' = Inr (800, 3000)"
    by (simp_all add: demo_env_def lenient_env_def)
  have ps: "sorted_positions 3000 [1000, 1000] = [0, 1000, 1000, 3000]"
    by (simp add: sorted_positions_def)
  have i: "1 < length (sorted_positions 3000 [1000, 1000]) - 1" by (simp add: ps)
  have surv: "\<not> dropped [] [] (sorted_positions 3000 [1000, 1000]) 1"
    by (simp add: dropped_def)
  have same: "sorted_positions 3000 [1000, 1000] ! 1 = sorted_positions 3000 [1000, 1000] ! (1 + 1)"
    by (simp add: ps)
  let ?r = "split_by_positions lenient_env demo_splitter [1000, 1000] [] [] [] ''output''"
  have ok: "?r = Inr (projr ?r)" by code_simp
  have d: "details (projr ?r) = produced ?r"
    by (subst (2) ok) (simp add: produced_def)
  from zero_height_not_filtered [OF p k o', of "[1000, 1000]" "[]" "[]" "[]" "''output''",
         THEN conjunct1] ok i surv
  have "\<exists>x \<in> set (details (projr ?r)). index x = int 1 + 1
          \<and> crop_box x = (0, sorted_positions 3000 [1000, 1000] ! 1, 800,
                           sorted_positions 3000 [1000, 1000] ! (1 + 1))"
    by blast
  then have a: "(0, 1000, 800, 1000) \<in> set (map crop_box (produced ?r))"
    unfolding d ps by (auto simp: image_iff intro: rev_bexI)
  have refuses: "\<forall>rq. box_top (rq_box rq) = box_bottom (rq_box rq) \<longrightarrow> isl (save demo_env rq)"
    by (simp add: demo_env_def)
  from zero_height_not_filtered [OF p k o, of "[1000, 1000]" "[]" "[]" "[]" "''output''",
         THEN conjunct2] refuses i surv same
  have b: "isl (split_by_positions demo_env demo_splitter [1000, 1000] [] [] [] ''output'')"
    by blast
  from a b show ?thesis by (rule conjI)
qed

section \<open>Global numbering across the files of a batch\<close>

text \<open>
  Inside one file the loop of \<^verbatim>\<open>_split_with_global_numbering\<close> advances the local
  index for every pair and the global index for every surviving pair, once; the number of
  artifacts is the number of surviving pairs plus the number of surviving pairs in the
  size-suffix list.
\<close>

lemma split_segment_global_Inr:
  assumes "split_segment_global e src k dir w ps skips excl sizes i (int i + 1, g, c, info)
             = Inr (s', g', c', info')"
  shows "s' = int (Suc i) + 1
     \<and> g' = g + (if dropped excl skips ps i then 0 else 1)
     \<and> length info' = length info
           + (if dropped excl skips ps i then 0 else if int i + 1 \<in> set sizes then 2 else 1)
     \<and> (\<forall>x \<in> set info'. x \<in> set info \<or> index x = g)"
  using assms
  by (auto simp: split_segment_global_def dropped_def output_entry_def Let_def
        split: if_splits sum.splits)

lemma global_loop_Inr:
  "for_each (split_segment_global e src k dir w ps skips excl sizes) [0 ..< n] (1, g, 0, [])
     = Inr (s, g', c, info)
   \<Longrightarrow> s = int n + 1
     \<and> g' = g + int (length (filter (\<lambda>i. \<not> dropped excl skips ps i) [0 ..< n]))
     \<and> length info = length (filter (\<lambda>i. \<not> dropped excl skips ps i) [0 ..< n])
           + length (filter (\<lambda>i. \<not> dropped excl skips ps i \<and> int i + 1 \<in> set sizes) [0 ..< n])"
proof (induction n arbitrary: s g' c info)
  case 0
  then show ?case by simp
next
  case (Suc n)
  from Suc.prems obtain u where
    u: "for_each (split_segment_global e src k dir w ps skips excl sizes) [0 ..< n] (1, g, 0, []) = Inr u"
    and step: "split_segment_global e src k dir w ps skips excl sizes n u = Inr (s, g', c, info)"
    by (auto elim: for_each_snoc_Inr)
  obtain s0 g0 c0 info0 where u_eq: "u = (s0, g0, c0, info0)" by (cases u)
  from Suc.IH [OF u [unfolded u_eq]] have
    s0: "s0 = int n + 1"
    and g0: "g0 = g + int (length (filter (\<lambda>i. \<not> dropped excl skips ps i) [0 ..< n]))"
    and l0: "length info0 = length (filter (\<lambda>i. \<not> dropped excl skips ps i) [0 ..< n])
           + length (filter (\<lambda>i. \<not> dropped excl skips ps i \<and> int i + 1 \<in> set sizes) [0 ..< n])"
    by simp_all
  from split_segment_global_Inr [OF step [unfolded u_eq s0]]
  show ?case by (simp add: g0 l0)
qed


text \<open>
  So \<^verbatim>\<open>splits_created\<close>, by which \<^verbatim>\<open>batch_process\<close> advances its running index
  from one file to the next, exceeds the number of surviving segments by the number of
  surviving segments in the size-suffix list.
\<close>

lemma global_numbering_counts:
  assumes ok: "split_with_global_numbering e self cuts skips excl sizes g = Inr r"
    and p: "current_image_path self = Some src"
    and o: "img_open e src = Inr (w, h)"
  shows "splits_created r =
           length (filter (\<lambda>i. \<not> dropped excl skips (sorted_positions h cuts) i)
                     [0 ..< length (sorted_positions h cuts) - 1])
         + length (filter (\<lambda>i. \<not> dropped excl skips (sorted_positions h cuts) i
                              \<and> int i + 1 \<in> set sizes)
                     [0 ..< length (sorted_positions h cuts) - 1])"
proof -
  let ?ps = "sorted_positions h cuts"
  from ok p o obtain k where k: "current_sku self = Some k"
    by (cases "current_sku self")
       (auto simp: split_with_global_numbering_def Let_def split: if_splits)
  let ?loop = "for_each (split_segment_global e src k (''output/manual_split/'' @ k) w ?ps
                 skips excl sizes) [0 ..< length ?ps - 1] (1, g, 0, [])"
  from ok p o k obtain s g' c info where
    loop: "?loop = Inr (s, g', c, info)" and n: "splits_created r = length info"
    by (cases "mkdir e (''output/manual_split/'' @ k)"; cases ?loop)
       (auto simp: split_with_global_numbering_def Let_def split: if_splits)
  from global_loop_Inr [OF loop] n show ?thesis by simp
qed

text \<open>
  Claim C4. Inside one file, \<^verbatim>\<open>_split_with_global_numbering\<close> advances the global
  index once for each surviving segment, and a \<^verbatim>\<open>-size\<close> artifact shares the index of
  its base artifact. Between files, \<^verbatim>\<open>batch_process\<close> advances its running index by
  \<^verbatim>\<open>splits_created\<close>, the number of artifacts, which counts each \<^verbatim>\<open>-size\<close>
  artifact a second time. With two images of height 3000, cuts at 1000 and 2000 and
  segment 1 in the size-suffix list, the first file uses the indices 1, 2, 3 and the second
  file starts at 5: index 4 is never used.
\<close>

theorem global_index_counts_size_duplicates:
  "batch_indices (batch_process demo_env demo_splitter [1000, 2000] [] [] [1] True)
     = [[1, 1, 2, 3], [5, 5, 6, 7]]"
  by code_simp

text \<open>Without a size suffix the numbering is contiguous, also past a dropped segment.\<close>

lemma global_index_without_size_suffix:
  "batch_indices (batch_process demo_env demo_splitter [1000, 2000] [] [2] [] True)
     = [[1, 2], [3, 4]]"
  by code_simp

section \<open>The grid planner\<close>

lemma grid_segment_Inr:
  assumes "grid_segment e cfg p fmt dir W H tw T v i info = Inr info'"
  shows "\<exists>d. info' = info @ [d] \<and> split_index d = int i + 1 \<and> output_size d = (tw, T)
           \<and> split_crop_box d =
                (if int i * T - int i * v + T > H then (0, H - T, W, H)
                 else (0, int i * T - int i * v, W, int i * T - int i * v + T))"
  using assms by (auto simp: grid_segment_def Let_def split: sum.splits)

lemma grid_loop_Inr:
  "for_each (grid_segment e cfg p fmt dir W H tw T v) [0 ..< n] [] = Inr info \<Longrightarrow>
   map split_index info = map (\<lambda>i. int i + 1) [0 ..< n]
   \<and> map split_crop_box info =
       map (\<lambda>i. if int i * T - int i * v + T > H then (0, H - T, W, H)
                else (0, int i * T - int i * v, W, int i * T - int i * v + T)) [0 ..< n]"
proof (induction n arbitrary: info)
  case 0
  then show ?case by simp
next
  case (Suc n)
  from Suc.prems obtain u where
    u: "for_each (grid_segment e cfg p fmt dir W H tw T v) [0 ..< n] [] = Inr u"
    and step: "grid_segment e cfg p fmt dir W H tw T v n u = Inr info"
    by (auto elim: for_each_snoc_Inr)
  from grid_segment_Inr [OF step] Suc.IH [OF u] show ?case by auto
qed

lemma within_height:
  fixes T v H :: int
  assumes "0 < T" "0 \<le> v" "i < nat (H div T)"
  shows "int i * T - int i * v + T \<le> H"
proof -
  from assms(3) have "int i + 1 \<le> H div T" by simp
  with assms(1) have "T * (int i + 1) \<le> T * (H div T)" by (simp add: mult_left_mono)
  moreover have "T * (H div T) + H mod T = H" by simp
  moreover from assms(1) have "0 \<le> H mod T" by simp
  ultimately have "T * (int i + 1) \<le> H" by linarith
  then have "int i * T + T \<le> H" by (simp add: algebra_simps)
  moreover from assms(2) have "0 \<le> int i * v" by simp
  ultimately show ?thesis by linarith
qed


lemma split_image_Success:
  assumes fmt: "output_formats cfg fmt = Some (tw, T)"
    and T: "T \<noteq> 0"
    and v: "v = (case overlap_pixels cfg of None \<Rightarrow> 0 | Some x \<Rightarrow> x)"
    and o: "img_open e image_path = Inr (W, H)"
    and ok: "split_image e cfg image_path fmt output_dir = Inr (Success n dir ds)"
  shows "for_each (grid_segment e cfg image_path fmt (output_dir @ ''/'' @ fmt) W H tw T v)
             [0 ..< nat (H div T)] [] = Inr ds \<and> n = length ds"
proof -
  let ?loop = "for_each (grid_segment e cfg image_path fmt (output_dir @ ''/'' @ fmt) W H tw T v)
             [0 ..< nat (H div T)] []"
  from ok fmt T o v show ?thesis
    by (cases "mkdir e (output_dir @ ''/'' @ fmt)"; cases ?loop)
       (simp_all add: split_image_def Let_def)
qed


lemma grid_boxes_unclamped:
  fixes T v H W :: int
  assumes "0 < T" "0 \<le> v"
  shows "map (\<lambda>i. if int i * T - int i * v + T > H then (0, H - T, W, H)
                  else (0, int i * T - int i * v, W, int i * T - int i * v + T)) [0 ..< nat (H div T)]
       = map (\<lambda>i. (0::int, int i * T - int i * v, W, int i * T - int i * v + T)) [0 ..< nat (H div T)]"
proof (rule map_cong [OF refl])
  fix i assume "i \<in> set [0 ..< nat (H div T)]"
  then have "i < nat (H div T)" by simp
  from within_height [OF assms this] show
    "(if int i * T - int i * v + T > H then (0, H - T, W, H)
      else (0, int i * T - int i * v, W, int i * T - int i * v + T))
     = (0, int i * T - int i * v, W, int i * T - int i * v + T)"
    by simp
qed

text \<open>
  Claim C8. With target height \<open>T > 0\<close> and overlap \<open>v \<ge> 0\<close>, a successful
  \<^verbatim>\<open>split_image\<close> on an image of height \<open>H\<close> has exactly \<open>H div T\<close> segments;
  segment \<open>i\<close> (from 0) has index \<open>i + 1\<close>, top \<open>i * T - i * v\<close> and bottom
  \<open>top + T\<close>; no bottom exceeds \<open>H\<close> and every segment has height exactly \<open>T\<close>.
  (The branch of the source that shifts a segment back so that its bottom is \<open>H\<close> is
  never taken for \<open>v \<ge> 0\<close>, since \<open>(i + 1) * T \<le> H\<close> for every \<open>i < H div T\<close>.)
\<close>

theorem grid_plan:
  assumes fmt: "output_formats cfg fmt = Some (tw, T)"
    and T: "0 < T"
    and v: "v = (case overlap_pixels cfg of None \<Rightarrow> 0 | Some x \<Rightarrow> x)" "0 \<le> v"
    and o: "img_open e image_path = Inr (W, H)"
    and ok: "split_image e cfg image_path fmt output_dir = Inr (Success n dir ds)"
  shows "n = nat (H div T) \<and> length ds = nat (H div T)
       \<and> map split_index ds = map (\<lambda>i. int i + 1) [0 ..< nat (H div T)]
       \<and> map split_crop_box ds =
           map (\<lambda>i. (0, int i * T - int i * v, W, int i * T - int i * v + T)) [0 ..< nat (H div T)]
       \<and> (\<forall>d \<in> set ds. box_bottom (split_crop_box d) \<le> H
              \<and> box_bottom (split_crop_box d) - box_top (split_crop_box d) = T)"
proof -
  let ?n = "nat (H div T)"
  from T have T0: "T \<noteq> 0" by simp
  from split_image_Success [OF fmt T0 v(1) o ok] have
    loop: "for_each (grid_segment e cfg image_path fmt (output_dir @ ''/'' @ fmt) W H tw T v)
             [0 ..< ?n] [] = Inr ds"
    and n: "n = length ds"
    by simp_all
  note g = grid_loop_Inr [OF loop]
  have idx: "map split_index ds = map (\<lambda>i. int i + 1) [0 ..< ?n]"
    by (rule g [THEN conjunct1])
  have boxes: "map split_crop_box ds =
           map (\<lambda>i. (0, int i * T - int i * v, W, int i * T - int i * v + T)) [0 ..< ?n]"
    using g [THEN conjunct2] grid_boxes_unclamped [OF T v(2), of H W] by simp
  have "length (map split_index ds) = ?n" unfolding idx by simp
  then have len: "length ds = ?n" by simp
  have fit: "box_bottom (split_crop_box d) \<le> H
              \<and> box_bottom (split_crop_box d) - box_top (split_crop_box d) = T"
    if d: "d \<in> set ds" for d
  proof -
    from d have "split_crop_box d \<in> set (map split_crop_box ds)" by simp
    then obtain i where i: "i < ?n"
      and b: "split_crop_box d = (0, int i * T - int i * v, W, int i * T - int i * v + T)"
      unfolding boxes by auto
    from within_height [OF T v(2) i] show ?thesis
      by (simp add: b box_top_def box_bottom_def)
  qed
  from n len idx boxes fit show ?thesis by blast
qed


text \<open>
  The scenario of the specification: height 3000, target height 1000, overlap 0 gives
  three segments of height 1000 that do not overlap, the last one ending at 3000.
\<close>

theorem grid_plan_witness:
  "\<exists>dir ds. split_image demo_env demo_config ''uploads/a.png'' ''custom'' ''output''
              = Inr (Success 3 dir ds)
     \<and> map split_crop_box ds = [(0, 0, 800, 1000), (0, 1000, 800, 2000), (0, 2000, 800, 3000)]
     \<and> map split_index ds = [1, 2, 3]"
proof -
  let ?ds = "[\<lparr>split_index = 1, split_filename = ''a_custom_001.jpg'',
                split_crop_box = (0, 0, 800, 1000), output_size = (800, 1000)\<rparr>,
              \<lparr>split_index = 2, split_filename = ''a_custom_002.jpg'',
                split_crop_box = (0, 1000, 800, 2000), output_size = (800, 1000)\<rparr>,
              \<lparr>split_index = 3, split_filename = ''a_custom_003.jpg'',
                split_crop_box = (0, 2000, 800, 3000), output_size = (800, 1000)\<rparr>]"
  have ok: "split_image demo_env demo_config ''uploads/a.png'' ''custom'' ''output''
              = Inr (Success 3 ''output/custom'' ?ds)"
    by code_simp
  have fmt: "output_formats demo_config ''custom'' = Some (800, 1000)"
    by (simp add: demo_config_def)
  have T: "(0::int) < 1000" by simp
  have v: "(0::int) = (case overlap_pixels demo_config of None \<Rightarrow> 0 | Some x \<Rightarrow> x)"
    by (simp add: demo_config_def)
  have v0: "(0::int) \<le> 0" by simp
  have o: "img_open demo_env ''uploads/a.png'' = Inr (800, 3000)"
    by (simp add: demo_env_def)
  have up: "[0 ..< nat (3000 div 1000)] = [0, 1, 2]" by (simp add: upt_rec)
  from grid_plan [OF fmt T v v0 o ok, unfolded up]
  have b: "map split_crop_box ?ds = [(0, 0, 800, 1000), (0, 1000, 800, 2000), (0, 2000, 800, 3000)]"
    and i: "map split_index ?ds = [1, 2, 3]"
    by simp_all
  show ?thesis
    by (rule exI [of _ "''output/custom''"], rule exI [of _ ?ds]) (intro conjI ok b i)
qed

text \<open>The call does succeed when the directory, the image and every save succeed.\<close>

lemma for_each_total:
  assumes "\<And>x s. \<exists>s'. body x s = Inr s'"
  shows "\<exists>t. for_each body xs s = Inr t"
proof (induction xs arbitrary: s)
  case Nil
  show ?case by simp
next
  case (Cons x xs)
  from assms obtain s' where "body x s = Inr s'" by blast
  with Cons.IH [of s'] show ?case by simp
qed

lemma split_image_succeeds:
  assumes fmt: "output_formats cfg fmt = Some (tw, T)" and T: "T \<noteq> 0"
    and dir: "mkdir e (output_dir @ ''/'' @ fmt) = None"
    and o: "img_open e image_path = Inr (W, H)"
    and sv: "\<And>rq. \<exists>sz. save e rq = Inr sz"
  shows "\<exists>n d ds. split_image e cfg image_path fmt output_dir = Inr (Success n d ds)"
proof -
  let ?v = "case overlap_pixels cfg of None \<Rightarrow> 0 | Some x \<Rightarrow> x"
  let ?body = "grid_segment e cfg image_path fmt (output_dir @ ''/'' @ fmt) W H tw T ?v"
  have "\<exists>s'. ?body x s = Inr s'" for x s
  proof -
    let ?rq = "\<lparr>rq_source = image_path,
             rq_box = (0, (if int x * T - int x * ?v + T > H then H - T else int x * T - int x * ?v), W,
                       (if int x * T - int x * ?v + T > H then H else int x * T - int x * ?v + T)),
             rq_resize = (if (W, (if int x * T - int x * ?v + T > H then H else int x * T - int x * ?v + T)
                                 - (if int x * T - int x * ?v + T > H then H - T else int x * T - int x * ?v))
                              \<noteq> (tw, T) then Some (tw, T) else None),
             rq_dest = (output_dir @ ''/'' @ fmt) @ ''/'' @
                       (path_stem image_path @ ''_'' @ fmt @ ''_'' @ fmt_03d (int x + 1) @ ''.jpg''),
             rq_format = output_format cfg, rq_quality = quality cfg\<rparr>"
    from sv [of ?rq] obtain sz where "save e ?rq = Inr sz" by blast
    then show ?thesis by (simp add: grid_segment_def Let_def)
  qed
  from for_each_total [of ?body, OF this] obtain t where
    "for_each ?body [0 ..< nat (H div T)] [] = Inr t" by blast
  with fmt T dir o show ?thesis by (simp add: split_image_def Let_def)
qed

section \<open>Failures of the per-file transform\<close>

text \<open>
  Claim C7 says that \<^verbatim>\<open>split_image\<close> never raises and that its failure value
  carries the source path. An output format that the configuration does not know makes
  \<^verbatim>\<open>split_image\<close> raise a \<^verbatim>\<open>ValueError\<close> before its \<^verbatim>\<open>try\<close> block.
\<close>

theorem unsupported_format_raises_counterexample:
  "split_image demo_env demo_config ''uploads/a.png'' ''tiktok'' ''output''
     = Inl (UnsupportedFormat ''tiktok'')"
  by (simp add: split_image_def demo_config_def)

text \<open>The failure value that \<^verbatim>\<open>split_image\<close> returns holds the message only.\<close>

lemma split_image_failure_has_no_path:
  "split_image demo_env demo_config ''uploads/c.png'' ''custom'' ''output''
     = Inr (Failure ''cannot identify image file'')"
  by code_simp

text \<open>The loop of \<^verbatim>\<open>split_image\<close> ends with the exception of the first save that fails.\<close>

lemma grid_segment_fails:
  "save e (grid_request cfg p fmt dir W H tw T v i) = Inl msg
   \<Longrightarrow> grid_segment e cfg p fmt dir W H tw T v i info = Inl msg"
  by (simp add: grid_segment_def grid_request_def Let_def)

lemma grid_segment_passes:
  "\<not> isl (save e (grid_request cfg p fmt dir W H tw T v i))
   \<Longrightarrow> \<exists>info'. grid_segment e cfg p fmt dir W H tw T v i info = Inr info'"
  by (cases "save e (grid_request cfg p fmt dir W H tw T v i)")
     (simp_all add: grid_segment_def grid_request_def Let_def)

lemma grid_loop_passes:
  "(\<forall>i < j. \<not> isl (save e (grid_request cfg p fmt dir W H tw T v i)))
   \<Longrightarrow> \<exists>t. for_each (grid_segment e cfg p fmt dir W H tw T v) [0 ..< j] info = Inr t"
proof (induction j)
  case 0
  show ?case by simp
next
  case (Suc j)
  from Suc.prems have "\<forall>i < j. \<not> isl (save e (grid_request cfg p fmt dir W H tw T v i))"
    by simp
  from Suc.IH [OF this] obtain t where
    t: "for_each (grid_segment e cfg p fmt dir W H tw T v) [0 ..< j] info = Inr t" by blast
  from Suc.prems have "\<not> isl (save e (grid_request cfg p fmt dir W H tw T v j))" by simp
  from grid_segment_passes [OF this] obtain t' where
    "grid_segment e cfg p fmt dir W H tw T v j t = Inr t'" by blast
  with t show ?case by (simp add: for_each_append)
qed

lemma grid_loop_fails:
  assumes j: "j < n"
    and before: "\<forall>i < j. \<not> isl (save e (grid_request cfg p fmt dir W H tw T v i))"
    and at: "save e (grid_request cfg p fmt dir W H tw T v j) = Inl msg"
  shows "for_each (grid_segment e cfg p fmt dir W H tw T v) [0 ..< n] info = Inl msg"
proof -
  from grid_loop_passes [OF before] obtain t where
    t: "for_each (grid_segment e cfg p fmt dir W H tw T v) [0 ..< j] info = Inr t" by blast
  from j have "[0 ..< n] = [0 ..< j] @ [j ..< n]"
    using upt_add_eq_append [of 0 j "n - j"] by simp
  moreover from j have "[j ..< n] = j # [Suc j ..< n]"
    by (simp add: upt_conv_Cons)
  ultimately have split: "[0 ..< n] = [0 ..< j] @ j # [Suc j ..< n]" by simp
  show ?thesis
    unfolding split by (simp add: for_each_append t grid_segment_fails [OF at])
qed

lemma grid_loop_length:
  assumes "for_each (grid_segment e cfg p fmt dir W H tw T v) [0 ..< n] [] = Inr info"
  shows "length info = n"
proof -
  from grid_loop_Inr [OF assms] have "length (map split_index info) = length [0 ..< n]"
    by simp
  then show ?thesis by simp
qed

text \<open>
  Claim C7, amended. \<^verbatim>\<open>split_image\<close> raises for an unsupported output format, and a
  failure to create the output directory leaves it as an exception too. Every failure
  inside its \<^verbatim>\<open>try\<close> block is returned as a failure value that holds the message and
  not the source path: an unreadable source, and the first crop, encode or write that
  fails; when every save succeeds it returns a success with \<open>H div T\<close> segments. The
  dispatch wrapper \<^verbatim>\<open>process_single_image\<close> never raises: it always returns a result
  that carries the source path, with the message of the exception when
  \<^verbatim>\<open>split_image\<close> raised and with the value of \<^verbatim>\<open>split_image\<close> otherwise.
\<close>

theorem transform_failures:
  "(output_formats cfg fmt = None \<longrightarrow>
      split_image e cfg image_path fmt output_dir = Inl (UnsupportedFormat fmt))
   \<and> (\<forall>tw T. output_formats cfg fmt = Some (tw, T) \<longrightarrow>
        (\<forall>msg. mkdir e (output_dir @ ''/'' @ fmt) = Some msg \<longrightarrow>
           split_image e cfg image_path fmt output_dir = Inl (OSError msg))
      \<and> (mkdir e (output_dir @ ''/'' @ fmt) = None \<longrightarrow>
           (\<forall>msg. img_open e image_path = Inl msg \<longrightarrow>
              split_image e cfg image_path fmt output_dir = Inr (Failure msg))
         \<and> (\<forall>W H. img_open e image_path = Inr (W, H) \<longrightarrow> T \<noteq> 0 \<longrightarrow>
              (\<forall>j msg. j < nat (H div T) \<longrightarrow>
                 (\<forall>i < j. \<not> isl (save e (grid_request cfg image_path fmt (output_dir @ ''/'' @ fmt)
                                            W H tw T
                                            (case overlap_pixels cfg of None \<Rightarrow> 0 | Some v \<Rightarrow> v) i))) \<longrightarrow>
                 save e (grid_request cfg image_path fmt (output_dir @ ''/'' @ fmt) W H tw T
                           (case overlap_pixels cfg of None \<Rightarrow> 0 | Some v \<Rightarrow> v) j) = Inl msg \<longrightarrow>
                 split_image e cfg image_path fmt output_dir = Inr (Failure msg))
            \<and> ((\<forall>i < nat (H div T).
                   \<not> isl (save e (grid_request cfg image_path fmt (output_dir @ ''/'' @ fmt)
                                     W H tw T
                                     (case overlap_pixels cfg of None \<Rightarrow> 0 | Some v \<Rightarrow> v) i))) \<longrightarrow>
                (\<exists>ds. split_image e cfg image_path fmt output_dir
                         = Inr (Success (nat (H div T)) (output_dir @ ''/'' @ fmt) ds)
                     \<and> length ds = nat (H div T))))))
   \<and> process_single_image e cfg image_path fmt output_dir
       = Inr \<lparr>source_file = image_path,
              outcome = (case split_image e cfg image_path fmt output_dir of
                           Inl ex \<Rightarrow> Failure (str_exn ex)
                         | Inr res \<Rightarrow> res)\<rparr>"
proof (intro conjI allI impI)
  show "split_image e cfg image_path fmt output_dir = Inl (UnsupportedFormat fmt)"
    if "output_formats cfg fmt = None"
    using that by (simp add: split_image_def)
  show "process_single_image e cfg image_path fmt output_dir
       = Inr \<lparr>source_file = image_path,
              outcome = (case split_image e cfg image_path fmt output_dir of
                           Inl ex \<Rightarrow> Failure (str_exn ex)
                         | Inr res \<Rightarrow> res)\<rparr>"
    by (simp add: process_single_image_def split: sum.splits)
next
  fix tw T msg
  assume "output_formats cfg fmt = Some (tw, T)" "mkdir e (output_dir @ ''/'' @ fmt) = Some msg"
  then show "split_image e cfg image_path fmt output_dir = Inl (OSError msg)"
    by (simp add: split_image_def)
next
  fix tw T msg
  assume "output_formats cfg fmt = Some (tw, T)" "mkdir e (output_dir @ ''/'' @ fmt) = None"
    "img_open e image_path = Inl msg"
  then show "split_image e cfg image_path fmt output_dir = Inr (Failure msg)"
    by (simp add: split_image_def)
next
  fix tw T W H j msg
  let ?v = "case overlap_pixels cfg of None \<Rightarrow> 0 | Some v \<Rightarrow> v"
  let ?dir = "output_dir @ ''/'' @ fmt"
  assume a: "output_formats cfg fmt = Some (tw, T)" "mkdir e ?dir = None"
    "img_open e image_path = Inr (W, H)" "T \<noteq> 0"
    and j: "j < nat (H div T)"
    and before: "\<forall>i < j. \<not> isl (save e (grid_request cfg image_path fmt ?dir W H tw T ?v i))"
    and at: "save e (grid_request cfg image_path fmt ?dir W H tw T ?v j) = Inl msg"
  from grid_loop_fails [OF j before at] have
    "for_each (grid_segment e cfg image_path fmt ?dir W H tw T ?v) [0 ..< nat (H div T)] [] = Inl msg" .
  with a show "split_image e cfg image_path fmt output_dir = Inr (Failure msg)"
    by (simp add: split_image_def Let_def)
next
  fix tw T W H
  let ?v = "case overlap_pixels cfg of None \<Rightarrow> 0 | Some v \<Rightarrow> v"
  let ?dir = "output_dir @ ''/'' @ fmt"
  assume a: "output_formats cfg fmt = Some (tw, T)" "mkdir e ?dir = None"
    "img_open e image_path = Inr (W, H)" "T \<noteq> 0"
    and all: "\<forall>i < nat (H div T). \<not> isl (save e (grid_request cfg image_path fmt ?dir W H tw T ?v i))"
  from grid_loop_passes [OF all] obtain ds where
    ds: "for_each (grid_segment e cfg image_path fmt ?dir W H tw T ?v) [0 ..< nat (H div T)] [] = Inr ds"
    by blast
  from grid_loop_length [OF ds] have len: "length ds = nat (H div T)" .
  from a ds len have "split_image e cfg image_path fmt output_dir
                         = Inr (Success (nat (H div T)) ?dir ds)"
    by (simp add: split_image_def Let_def)
  with len show "\<exists>ds. split_image e cfg image_path fmt output_dir
                         = Inr (Success (nat (H div T)) ?dir ds)
                     \<and> length ds = nat (H div T)"
    by blast
qed

theorem transform_failures_witness:
  "split_image demo_env demo_config ''uploads/a.png'' ''tiktok'' ''output''
     = Inl (UnsupportedFormat ''tiktok'')
   \<and> split_image read_only_env demo_config ''uploads/a.png'' ''custom'' ''output''
     = Inl (OSError ''Permission denied'')
   \<and> split_image demo_env demo_config ''uploads/c.png'' ''custom'' ''output''
     = Inr (Failure ''cannot identify image file'')
   \<and> split_image full_disk_env demo_config ''uploads/a.png'' ''custom'' ''output''
     = Inr (Failure ''No space left on device'')
   \<and> (\<exists>ds. split_image demo_env demo_config ''uploads/a.png'' ''custom'' ''output''
              = Inr (Success 3 ''output/custom'' ds) \<and> length ds = 3)
   \<and> process_single_image full_disk_env demo_config ''uploads/a.png'' ''custom'' ''output''
     = Inr \<lparr>source_file = ''uploads/a.png'', outcome = Failure ''No space left on device''\<rparr>
   \<and> process_single_image demo_env demo_config ''uploads/a.png'' ''tiktok'' ''output''
     = Inr \<lparr>source_file = ''uploads/a.png'', outcome = Failure ''unsupported format: tiktok''\<rparr>"
proof -
  let ?v = "case overlap_pixels demo_config of None \<Rightarrow> 0 | Some v \<Rightarrow> v"
  let ?rq = "grid_request demo_config ''uploads/a.png'' ''custom'' (''output'' @ ''/'' @ ''custom'')
               800 3000 800 1000 ?v"
  have none: "output_formats demo_config ''tiktok'' = None"
    and some: "output_formats demo_config ''custom'' = Some (800, 1000)"
    by (simp_all add: demo_config_def)
  have T: "(1000::int) \<noteq> 0" by simp
  have n: "nat (3000 div 1000) = 3" by simp
  have dir: "mkdir demo_env (''output'' @ ''/'' @ ''custom'') = None"
    and dir_full: "mkdir full_disk_env (''output'' @ ''/'' @ ''custom'') = None"
    and dir_ro: "mkdir read_only_env (''output'' @ ''/'' @ ''custom'') = Some ''Permission denied''"
    by (simp_all add: demo_env_def full_disk_env_def read_only_env_def)
  have bad: "img_open demo_env ''uploads/c.png'' = Inl ''cannot identify image file''"
    and o: "img_open demo_env ''uploads/a.png'' = Inr (800, 3000)"
    and o_full: "img_open full_disk_env ''uploads/a.png'' = Inr (800, 3000)"
    by (simp_all add: demo_env_def full_disk_env_def)
  note t_fmt = transform_failures [of demo_config "''tiktok''" demo_env "''uploads/a.png''" "''output''"]
  note t_ro = transform_failures [of demo_config "''custom''" read_only_env "''uploads/a.png''" "''output''"]
  note t_bad = transform_failures [of demo_config "''custom''" demo_env "''uploads/c.png''" "''output''"]
  note t_full = transform_failures [of demo_config "''custom''" full_disk_env "''uploads/a.png''" "''output''"]
  note t_ok = transform_failures [of demo_config "''custom''" demo_env "''uploads/a.png''" "''output''"]
  have a: "split_image demo_env demo_config ''uploads/a.png'' ''tiktok'' ''output''
     = Inl (UnsupportedFormat ''tiktok'')"
    by (rule t_fmt [THEN conjunct1, rule_format, OF none])
  have b: "split_image read_only_env demo_config ''uploads/a.png'' ''custom'' ''output''
     = Inl (OSError ''Permission denied'')"
    by (rule t_ro [THEN conjunct2, THEN conjunct1, rule_format, OF some, THEN conjunct1,
                   rule_format, OF dir_ro])
  have c: "split_image demo_env demo_config ''uploads/c.png'' ''custom'' ''output''
     = Inr (Failure ''cannot identify image file'')"
    by (rule t_bad [THEN conjunct2, THEN conjunct1, rule_format, OF some, THEN conjunct2,
                    rule_format, OF dir, THEN conjunct1, rule_format, OF bad])
  have j: "0 < nat (3000 div (1000::int))" by simp
  have before: "\<forall>i < 0. \<not> isl (save full_disk_env (?rq i))" by simp
  have at: "save full_disk_env (?rq 0) = Inl ''No space left on device''"
    by (simp add: full_disk_env_def)
  have d: "split_image full_disk_env demo_config ''uploads/a.png'' ''custom'' ''output''
     = Inr (Failure ''No space left on device'')"
    by (rule t_full [THEN conjunct2, THEN conjunct1, rule_format, OF some, THEN conjunct2,
                     rule_format, OF dir_full, THEN conjunct2, rule_format, OF o_full T,
                     THEN conjunct1, rule_format, OF j before [rule_format] at])
  have all: "\<forall>i < nat (3000 div 1000). \<not> isl (save demo_env (?rq i))"
    unfolding n
  proof (intro allI impI)
    fix i :: nat assume "i < 3"
    then have "i = 0 \<or> i = 1 \<or> i = 2" by auto
    then show "\<not> isl (save demo_env (?rq i))"
      by (auto simp: demo_env_def demo_config_def grid_request_def box_top_def box_bottom_def)
  qed
  from t_ok [THEN conjunct2, THEN conjunct1, rule_format, OF some, THEN conjunct2,
             rule_format, OF dir, THEN conjunct2, rule_format, OF o T,
             THEN conjunct2, rule_format, OF all [rule_format]]
  have e: "\<exists>ds. split_image demo_env demo_config ''uploads/a.png'' ''custom'' ''output''
              = Inr (Success 3 ''output/custom'' ds) \<and> length ds = 3"
    by (simp add: n)
  have f: "process_single_image full_disk_env demo_config ''uploads/a.png'' ''custom'' ''output''
     = Inr \<lparr>source_file = ''uploads/a.png'', outcome = Failure ''No space left on device''\<rparr>"
    using t_full [THEN conjunct2, THEN conjunct2] d by simp
  have g: "process_single_image demo_env demo_config ''uploads/a.png'' ''tiktok'' ''output''
     = Inr \<lparr>source_file = ''uploads/a.png'', outcome = Failure ''unsupported format: tiktok''\<rparr>"
    using t_fmt [THEN conjunct2, THEN conjunct2] a by simp
  from a b c d e f g show ?thesis by (intro conjI)
qed

section \<open>Resuming a batch\<close>

lemma complete_file_processed:
  assumes "truthy resume_file"
    and "complete_file e cfg fmt out resume_file f (res, c, P, st) = (res', c', P', st')"
  shows "P' = insert f P"
  using assms
  by (auto simp: complete_file_def process_single_image_def Let_def
        split: sum.splits if_splits)

lemma fold_complete_file_processed:
  assumes "truthy resume_file"
  shows "fold (complete_file e cfg fmt out resume_file) fs (res, c, P, st) = (res', c', P', st')
         \<Longrightarrow> P' = P \<union> set fs"
proof (induction fs arbitrary: res c P st)
  case Nil
  then show ?case by simp
next
  case (Cons f fs)
  obtain res1 c1 P1 st1 where
    step: "complete_file e cfg fmt out resume_file f (res, c, P, st) = (res1, c1, P1, st1)"
    by (cases "complete_file e cfg fmt out resume_file f (res, c, P, st)") auto
  from complete_file_processed [OF assms step] have P1: "P1 = insert f P" .
  from Cons.prems step have "fold (complete_file e cfg fmt out resume_file) fs (res1, c1, P1, st1)
        = (res', c', P', st')" by simp
  from Cons.IH [OF this] P1 show ?case by auto
qed

text \<open>
  Claim C10. With a resume file that can be written, and a thread pool that completes
  every file submitted to it, \<^verbatim>\<open>process_directory_parallel\<close> returns, and the set it
  leaves in the resume file holds every scanned file, whatever the result of its
  transform was. A second run over the same files with that resume file finds nothing
  left to process: it returns the results it started with and leaves the resume file as
  it is, so a file that failed before is not processed again.
\<close>

theorem failed_files_not_retried:
  assumes rf: "rf \<noteq> []"
    and w: "can_write e rf"
    and sched: "\<And>fs. set (as_completed e fs) = set fs"
  shows "\<exists>res1 store1.
           process_directory_parallel e cfg res (Some files) fmt out (Some rf) store = Inr (res1, store1)
         \<and> set files \<subseteq> persisted store1 rf
         \<and> (\<forall>res'. process_directory_parallel e cfg res' (Some files) fmt out (Some rf) store1
                      = Inr (res', store1))"
proof -
  let ?old = "persisted store rf"
  let ?rem = "filter (\<lambda>f. f \<notin> ?old) files"
  have t: "truthy (Some rf)" using rf by simp
  have skip: "process_directory_parallel e cfg res' (Some files) fmt out (Some rf) st = Inr (res', st)"
    if "set files \<subseteq> persisted st rf" for res' st
  proof -
    from that have "filter (\<lambda>f. f \<notin> persisted st rf) files = []"
      by (auto simp: filter_empty_conv)
    then show ?thesis
      using rf by (simp add: process_directory_parallel_def persisted_def Let_def)
  qed
  show ?thesis
  proof (cases "?rem = []")
    case True
    then have sub: "set files \<subseteq> ?old" by (auto simp: filter_empty_conv)
    from skip [OF sub] sub show ?thesis by blast
  next
    case False
    obtain res1 c1 P1 st1 where
      run: "fold (complete_file e cfg fmt out (Some rf)) (as_completed e ?rem) (res, 0, ?old, store)
              = (res1, c1, P1, st1)"
      by (cases "fold (complete_file e cfg fmt out (Some rf)) (as_completed e ?rem) (res, 0, ?old, store)")
         auto
    from fold_complete_file_processed [OF t run] sched have P1: "P1 = ?old \<union> set ?rem" by simp
    have first: "process_directory_parallel e cfg res (Some files) fmt out (Some rf) store
                   = Inr (res1, st1(rf \<mapsto> P1))"
      using rf w False run
      by (simp add: process_directory_parallel_def persisted_def Let_def save_resume_data_def)
    have sub: "set files \<subseteq> persisted (st1(rf \<mapsto> P1)) rf"
      by (auto simp: persisted_def P1)
    from first sub skip [OF sub] show ?thesis by blast
  qed
qed


text \<open>
  A batch of one image that splits and one file that does not decode: the file that
  failed is in the resume file after the run, and the second run processes nothing.
\<close>

theorem failed_files_not_retried_witness:
  "(\<exists>r. process_single_image demo_env demo_config ''uploads/c.png'' ''custom'' ''output'' = Inr r
        \<and> outcome r = Failure ''cannot identify image file'')
   \<and> (\<exists>res1 store1.
         process_directory_parallel demo_env demo_config []
           (Some [''uploads/a.png'', ''uploads/c.png'']) ''custom'' ''output'' (Some ''resume.json'')
           Map.empty = Inr (res1, store1)
       \<and> ''uploads/c.png'' \<in> persisted store1 ''resume.json''
       \<and> process_directory_parallel demo_env demo_config []
           (Some [''uploads/a.png'', ''uploads/c.png'']) ''custom'' ''output'' (Some ''resume.json'')
           store1 = Inr ([], store1))"
proof -
  have rf: "''resume.json'' \<noteq> []" by simp
  have w: "can_write demo_env ''resume.json''" by (simp add: demo_env_def)
  have sched: "set (as_completed demo_env fs) = set fs" for fs by (simp add: demo_env_def)
  have failed: "\<exists>r. process_single_image demo_env demo_config ''uploads/c.png'' ''custom'' ''output'' = Inr r
        \<and> outcome r = Failure ''cannot identify image file''"
    by (simp add: process_single_image_def split_image_def demo_env_def demo_config_def)
  from failed_files_not_retried [OF rf w sched, of demo_config "[]"
         "[''uploads/a.png'', ''uploads/c.png'']" "''custom''" "''output''" Map.empty]
  obtain res1 store1 where
    a: "process_directory_parallel demo_env demo_config []
           (Some [''uploads/a.png'', ''uploads/c.png'']) ''custom'' ''output'' (Some ''resume.json'')
           Map.empty = Inr (res1, store1)"
    and b: "set [''uploads/a.png'', ''uploads/c.png''] \<subseteq> persisted store1 ''resume.json''"
    and c: "\<forall>res'. process_directory_parallel demo_env demo_config res'
           (Some [''uploads/a.png'', ''uploads/c.png'']) ''custom'' ''output'' (Some ''resume.json'')
           store1 = Inr (res', store1)"
    by blast
  from b have b': "''uploads/c.png'' \<in> persisted store1 ''resume.json''" by simp
  from c have c': "process_directory_parallel demo_env demo_config []
           (Some [''uploads/a.png'', ''uploads/c.png'']) ''custom'' ''output'' (Some ''resume.json'')
           store1 = Inr ([], store1)" by blast
  from a b' c' have "\<exists>res1 store1.
         process_directory_parallel demo_env demo_config []
           (Some [''uploads/a.png'', ''uploads/c.png'']) ''custom'' ''output'' (Some ''resume.json'')
           Map.empty = Inr (res1, store1)
       \<and> ''uploads/c.png'' \<in> persisted store1 ''resume.json''
       \<and> process_directory_parallel demo_env demo_config []
           (Some [''uploads/a.png'', ''uploads/c.png'']) ''custom'' ''output'' (Some ''resume.json'')
           store1 = Inr ([], store1)"
    by (intro exI [of _ res1] exI [of _ store1] conjI)
  with failed show ?thesis by (rule conjI)
qed

end
